theory Spec2Isabelle
  imports Main "HOL-Library.Char_ord" "HOL-Library.List_Lexorder" "HOL-Library.Sublist"
    "HOL-Library.AList"
begin

section \<open>Data model (data\_service/models.py)\<close>

text \<open>
  Python strings are modelled as \<^typ>\<open>string\<close>, the UTF-8 bytes of the text. Equality,
  substring tests and the lexicographic order of \<open>str\<close> (by code point) agree with the
  same operations on the UTF-8 bytes. The order on \<^typ>\<open>string\<close> is the lexicographic
  one of \<open>List_Lexorder\<close> over the byte order of \<open>Char_ord\<close>.

  The fields declared \<open>conint(gt=0)\<close> are natural numbers; the pydantic models reject
  every other value before the scheduler sees a course.
\<close>

record TimeSlot =
  ts_id :: int
  ts_day :: string
  start_time :: string
  end_time :: string

record Course =
  c_id :: int
  c_name :: string
  weekly_hours :: nat
  min_block_duration :: nat
  max_block_duration :: nat
  required_room_type :: string
  c_professor_id :: "int option"

record Room =
  r_id :: int
  r_name :: string
  capacity :: int
  r_type :: string
  building_name :: "string option"

record Professor =
  p_id :: int
  p_name :: string
  availability :: "int list"
  max_load :: nat

record ProfessorCourseGroupAssignment =
  a_id :: int
  a_professor_id :: int
  a_course_id :: int
  a_group_id :: int
  professor_asignatura_id :: int

record Group =
  g_id :: int
  g_name :: string
  tutor :: "string option"

section \<open>The input index: class SchedulingData\<close>

text \<open>
  \<open>room_usage\<close>, the only attribute of \<open>SchedulingData\<close> that changes after
  construction, lives in the mutable state of the run (see \<open>sched_state\<close> below); the
  record here holds the attributes that are read-only after \<open>__init__\<close>.
  Dictionaries that the code only looks keys up in are maps; \<open>slots_by_day\<close>, whose
  keys are iterated, is an association list in insertion order.
\<close>

record SchedulingData =
  courses :: "int \<rightharpoonup> Course"
  rooms :: "int \<rightharpoonup> Room"
  professors :: "int \<rightharpoonup> Professor"
  slots :: "int \<rightharpoonup> TimeSlot"
  professor_rooms :: "int \<rightharpoonup> int"
  professor_available_slots :: "int \<rightharpoonup> int set"
  group_course_professor :: "(int \<times> int) \<rightharpoonup> int"
  valid_slots :: "TimeSlot list"
  slots_by_day :: "(string \<times> TimeSlot list) list"

text \<open>\<open>{key(x): x for x in xs}\<close>: a later element with the same key replaces an earlier one.\<close>

definition dict_by :: "('a \<Rightarrow> 'k) \<Rightarrow> 'a list \<Rightarrow> ('k \<rightharpoonup> 'a)" where
  "dict_by key xs = fold (\<lambda>x m. m(key x \<mapsto> x)) xs Map.empty"

text \<open>\<open>"17:00" <= s.start_time < "22:00"\<close>, a comparison of strings.\<close>

definition in_window :: "TimeSlot \<Rightarrow> bool" where
  "in_window s = (''17:00'' \<le> start_time s \<and> start_time s < ''22:00'')"

definition available_slots_of :: "TimeSlot list \<Rightarrow> Professor list \<Rightarrow> (int \<rightharpoonup> int set)" where
  "available_slots_of timeslots profs =
     fold (\<lambda>prof m. m(p_id prof \<mapsto> set (map ts_id timeslots) - set (availability prof)))
       profs Map.empty"

definition assignment_index ::
  "ProfessorCourseGroupAssignment list \<Rightarrow> ((int \<times> int) \<rightharpoonup> int)" where
  "assignment_index assignments =
     fold (\<lambda>a m. m((a_group_id a, a_course_id a) \<mapsto> a_professor_id a)) assignments Map.empty"

text \<open>
  The loop that appends each valid slot to the list of its day, creating the list at the
  first slot of a day; then every list is sorted by slot id (\<open>list.sort\<close> is stable, as
  \<^const>\<open>sort_key\<close> is).
\<close>

definition add_slot_to_day ::
  "TimeSlot \<Rightarrow> (string \<times> TimeSlot list) list \<Rightarrow> (string \<times> TimeSlot list) list" where
  "add_slot_to_day s m =
     (case map_of m (ts_day s) of
        None \<Rightarrow> m @ [(ts_day s, [s])]
      | Some l \<Rightarrow> AList.update (ts_day s) (l @ [s]) m)"

definition group_slots_by_day :: "TimeSlot list \<Rightarrow> (string \<times> TimeSlot list) list" where
  "group_slots_by_day vs =
     map (\<lambda>(d, l). (d, sort_key ts_id l)) (fold add_slot_to_day vs [])"

definition init_SchedulingData ::
  "Course list \<Rightarrow> Room list \<Rightarrow> TimeSlot list \<Rightarrow> Professor list \<Rightarrow>
   ProfessorCourseGroupAssignment list \<Rightarrow> (int \<rightharpoonup> int) \<Rightarrow> SchedulingData" where
  "init_SchedulingData cs rs timeslots profs assignments prof_rooms =
     \<lparr> courses = dict_by c_id cs,
       rooms = dict_by r_id rs,
       professors = dict_by p_id profs,
       slots = dict_by ts_id timeslots,
       professor_rooms = prof_rooms,
       professor_available_slots = available_slots_of timeslots profs,
       group_course_professor = assignment_index assignments,
       valid_slots = filter in_window timeslots,
       slots_by_day = group_slots_by_day (filter in_window timeslots) \<rparr>"

definition is_professor_available_at_slots :: "SchedulingData \<Rightarrow> int \<Rightarrow> int list \<Rightarrow> bool" where
  "is_professor_available_at_slots data prof_id slot_ids =
     (case professor_available_slots data prof_id of
        None \<Rightarrow> True
      | Some available_slots \<Rightarrow> list_all (\<lambda>slot_id. slot_id \<in> available_slots) slot_ids)"

definition get_professor_for_group_course :: "SchedulingData \<Rightarrow> int \<Rightarrow> int \<Rightarrow> int option" where
  "get_professor_for_group_course data group_id course_id =
     group_course_professor data (group_id, course_id)"

definition get_professor_room :: "SchedulingData \<Rightarrow> int \<Rightarrow> int option" where
  "get_professor_room data prof_id = professor_rooms data prof_id"

section \<open>The tracker: class GroupScheduleTracker\<close>

text \<open>
  The four dictionaries of the tracker. None of them is ever iterated, and Python compares
  dictionaries and sets without regard to order, so they are maps and sets.
\<close>

record GroupScheduleTracker =
  prof_schedule :: "int \<rightharpoonup> (int \<rightharpoonup> int)"
  group_schedule :: "int \<rightharpoonup> (int \<rightharpoonup> int)"
  course_fixed_hour :: "(int \<times> int) \<rightharpoonup> string"
  group_course_days :: "(int \<times> int) \<rightharpoonup> string set"

definition init_GroupScheduleTracker :: GroupScheduleTracker where
  "init_GroupScheduleTracker =
     \<lparr> prof_schedule = Map.empty, group_schedule = Map.empty,
       course_fixed_hour = Map.empty, group_course_days = Map.empty \<rparr>"

definition can_assign_professor :: "GroupScheduleTracker \<Rightarrow> int \<Rightarrow> int list \<Rightarrow> bool" where
  "can_assign_professor t prof_id slot_ids =
     (case prof_schedule t prof_id of
        None \<Rightarrow> True
      | Some m \<Rightarrow> list_all (\<lambda>slot_id. m slot_id = None) slot_ids)"

definition can_assign_group :: "GroupScheduleTracker \<Rightarrow> int \<Rightarrow> int list \<Rightarrow> bool" where
  "can_assign_group t group_id slot_ids =
     (case group_schedule t group_id of
        None \<Rightarrow> True
      | Some m \<Rightarrow> list_all (\<lambda>slot_id. m slot_id = None) slot_ids)"

definition get_used_days_for_course :: "GroupScheduleTracker \<Rightarrow> int \<Rightarrow> int \<Rightarrow> string set" where
  "get_used_days_for_course t group_id course_id =
     (case group_course_days t (group_id, course_id) of None \<Rightarrow> {} | Some ds \<Rightarrow> ds)"

definition add_day_for_course ::
  "GroupScheduleTracker \<Rightarrow> int \<Rightarrow> int \<Rightarrow> string \<Rightarrow> GroupScheduleTracker" where
  "add_day_for_course t group_id course_id day =
     t\<lparr>group_course_days := (group_course_days t)((group_id, course_id) \<mapsto>
          insert day (case group_course_days t (group_id, course_id) of
                        None \<Rightarrow> {} | Some ds \<Rightarrow> ds))\<rparr>"

definition remove_day_for_course ::
  "GroupScheduleTracker \<Rightarrow> int \<Rightarrow> int \<Rightarrow> string \<Rightarrow> GroupScheduleTracker" where
  "remove_day_for_course t group_id course_id day =
     (case group_course_days t (group_id, course_id) of
        None \<Rightarrow> t
      | Some ds \<Rightarrow>
          t\<lparr>group_course_days := (group_course_days t)((group_id, course_id) \<mapsto> ds - {day})\<rparr>)"

definition get_fixed_hour_for_course ::
  "GroupScheduleTracker \<Rightarrow> int \<Rightarrow> int \<Rightarrow> string option" where
  "get_fixed_hour_for_course t group_id course_id = course_fixed_hour t (group_id, course_id)"

definition set_fixed_hour_for_course ::
  "GroupScheduleTracker \<Rightarrow> int \<Rightarrow> int \<Rightarrow> string \<Rightarrow> GroupScheduleTracker" where
  "set_fixed_hour_for_course t group_id course_id hour =
     t\<lparr>course_fixed_hour := (course_fixed_hour t)((group_id, course_id) \<mapsto> hour)\<rparr>"

text \<open>
  \<open>assign\<close> creates the inner dictionary of a professor or group that has none, then
  stores one entry per slot id. The two dictionaries are distinct objects, so the
  interleaved stores of the source loop are two independent folds.
\<close>

definition or_empty :: "('a \<rightharpoonup> 'b) option \<Rightarrow> ('a \<rightharpoonup> 'b)" where
  "or_empty d = (case d of None \<Rightarrow> Map.empty | Some m \<Rightarrow> m)"

definition assign ::
  "GroupScheduleTracker \<Rightarrow> int \<Rightarrow> int \<Rightarrow> int list \<Rightarrow> int \<Rightarrow> GroupScheduleTracker" where
  "assign t prof_id group_id slot_ids course_id =
     t\<lparr>prof_schedule := (prof_schedule t)(prof_id \<mapsto>
          fold (\<lambda>slot_id m. m(slot_id \<mapsto> group_id)) slot_ids
            (or_empty (prof_schedule t prof_id))),
        group_schedule := (group_schedule t)(group_id \<mapsto>
          fold (\<lambda>slot_id m. m(slot_id \<mapsto> course_id)) slot_ids
            (or_empty (group_schedule t group_id)))\<rparr>"

text \<open>\<open>unassign\<close> pops the slot ids; it never removes an inner dictionary.\<close>

definition unassign ::
  "GroupScheduleTracker \<Rightarrow> int \<Rightarrow> int \<Rightarrow> int list \<Rightarrow> GroupScheduleTracker" where
  "unassign t prof_id group_id slot_ids =
     (let t1 = (case prof_schedule t prof_id of
                  None \<Rightarrow> t
                | Some m \<Rightarrow> t\<lparr>prof_schedule := (prof_schedule t)(prof_id \<mapsto>
                              fold (\<lambda>slot_id m. m(slot_id := None)) slot_ids m)\<rparr>)
      in case group_schedule t1 group_id of
           None \<Rightarrow> t1
         | Some m \<Rightarrow> t1\<lparr>group_schedule := (group_schedule t1)(group_id \<mapsto>
                       fold (\<lambda>slot_id m. m(slot_id := None)) slot_ids m)\<rparr>)"

section \<open>The block decomposer: calculate\_course\_blocks\<close>

text \<open>
  The \<open>while remaining > 0\<close> loop. It does not terminate when both block bounds are 0,
  so it is a partial function: \<open>None\<close> is the run that never returns.
\<close>

partial_function (option) blocks_loop :: "nat \<Rightarrow> nat \<Rightarrow> nat \<Rightarrow> nat list \<Rightarrow> nat list option" where
  "blocks_loop remaining mn mx blocks =
     (if remaining > 0 then
        (let block_dur = min remaining mx;
             block_dur = (if block_dur < mn \<and> remaining \<ge> mn then mn else block_dur)
         in blocks_loop (remaining - block_dur) mn mx (blocks @ [block_dur]))
      else Some blocks)"

declare blocks_loop.simps [code]

definition calculate_course_blocks :: "Course \<Rightarrow> nat list option" where
  "calculate_course_blocks course =
     blocks_loop (weekly_hours course) (min_block_duration course) (max_block_duration course) []"


section \<open>Errors, runtime primitives and the random source\<close>

text \<open>
  Every exception the scheduler can raise ends the run, so a function that can raise
  returns a \<open>result\<close>: \<open>Error\<close> carries the exception and no state. \<open>Diverges\<close> stands
  for a run that never returns (the decomposer's loop, see \<open>blocks_loop\<close>).
\<close>

datatype py_error = KeyError | IndexError | ValueError | Diverges

datatype 'a result = Error py_error | Ok 'a

text \<open>
  Four primitives of the Python runtime are parameters of the model, so that every
  theorem below holds whatever they return: \<open>int(s)\<close> (\<open>None\<close> is its ValueError),
  \<open>str.lower\<close>, and the order in which \<open>list(set(xs))\<close> lists a set of integers and a
  set of strings (the argument is the sequence of insertions).
\<close>

record runtime =
  py_int :: "string \<Rightarrow> int option"
  py_lower :: "string \<Rightarrow> string"
  int_set_order :: "int list \<Rightarrow> int list"
  str_set_order :: "string list \<Rightarrow> string list"

text \<open>
  The instance used to run the model on concrete inputs: \<open>int\<close> of a string of ASCII
  digits, \<open>lower\<close> on ASCII and on the two-byte UTF-8 letters U+00C0 to U+00DE, sets
  listed in the order of first insertion.
\<close>

definition is_digit :: "char \<Rightarrow> bool" where
  "is_digit c = (CHR ''0'' \<le> c \<and> c \<le> CHR ''9'')"

definition dec_int :: "string \<Rightarrow> int option" where
  "dec_int s =
     (if s = [] \<or> \<not> list_all is_digit s then None
      else Some (fold (\<lambda>c n. 10 * n + (int (of_char c) - 48)) s 0))"

definition ascii_lower :: "char \<Rightarrow> char" where
  "ascii_lower c =
     (if CHR ''A'' \<le> c \<and> c \<le> CHR ''Z'' then char_of (of_char c + (32::nat)) else c)"

fun lower_utf8 :: "string \<Rightarrow> string" where
  "lower_utf8 (a # b # r) =
     (if a = CHR 0xC3 \<and> CHR 0x80 \<le> b \<and> b \<le> CHR 0x9E \<and> b \<noteq> CHR 0x97
      then a # char_of (of_char b + (32::nat)) # lower_utf8 r
      else ascii_lower a # lower_utf8 (b # r))"
| "lower_utf8 [a] = [ascii_lower a]"
| "lower_utf8 [] = []"

definition std_runtime :: runtime where
  "std_runtime =
     \<lparr> py_int = dec_int, py_lower = lower_utf8,
       int_set_order = remdups, str_set_order = remdups \<rparr>"

text \<open>
  The module \<open>random\<close>. The generator is a list of naturals, one consumed by each call of
  \<open>randbelow\<close> and read as 0 once the list is used up; every run of the program draws
  finitely many numbers, so every run is the model's run on some list.
  \<open>random.shuffle\<close>, \<open>random.choice\<close> and \<open>random.randint\<close> are CPython's: the
  Fisher-Yates loop \<open>for i in reversed(range(1, len(x))): j = randbelow(i + 1); swap\<close>,
  \<open>seq[randbelow(len(seq))]\<close> and \<open>a + randbelow(b - a + 1)\<close>.
\<close>

type_synonym rng = "nat list"

definition randbelow :: "nat \<Rightarrow> rng \<Rightarrow> nat \<times> rng" where
  "randbelow n rng = (case rng of [] \<Rightarrow> (0, []) | x # r \<Rightarrow> (x mod n, r))"

fun shuffle_loop :: "nat \<Rightarrow> 'a list \<Rightarrow> rng \<Rightarrow> 'a list \<times> rng" where
  "shuffle_loop 0 xs rng = (xs, rng)"
| "shuffle_loop (Suc k) xs rng =
     (case randbelow (Suc (Suc k)) rng of
        (j, rng') \<Rightarrow> shuffle_loop k (xs[Suc k := xs ! j, j := xs ! Suc k]) rng')"

definition shuffle :: "'a list \<Rightarrow> rng \<Rightarrow> 'a list \<times> rng" where
  "shuffle xs rng = shuffle_loop (length xs - 1) xs rng"



section \<open>Loops\<close>

text \<open>
  \<open>for x in xs: if done: break; body\<close> (and \<open>while not done and n < max\<close>): the body
  is run on each element in turn until it reports success; the state is threaded through.
\<close>

fun first_success ::
  "('a \<Rightarrow> 's \<Rightarrow> (bool \<times> 's) result) \<Rightarrow> 'a list \<Rightarrow> 's \<Rightarrow> (bool \<times> 's) result" where
  "first_success step [] st = Ok (False, st)"
| "first_success step (x # xs) st =
     (case step x st of
        Error e \<Rightarrow> Error e
      | Ok (found, st') \<Rightarrow> if found then Ok (True, st') else first_success step xs st')"

text \<open>\<open>for x in xs: body\<close>, the body run on every element.\<close>

fun for_each :: "('a \<Rightarrow> 's \<Rightarrow> 's result) \<Rightarrow> 'a list \<Rightarrow> 's \<Rightarrow> 's result" where
  "for_each step [] st = Ok st"
| "for_each step (x # xs) st =
     (case step x st of Error e \<Rightarrow> Error e | Ok st' \<Rightarrow> for_each step xs st')"

section \<open>The state of a run\<close>

text \<open>
  An hour-slot identifier \<open>f"G{group_id}_C{course_id}_B{block}_H{j}"\<close> is the tuple of
  its four numbers: the decimal form of an integer holds no underscore, so the format is
  injective and \<open>split('_')\<close> gives back exactly the four parts; the block key
  \<open>f"{parts[0]}_{parts[1]}_{parts[2]}"\<close> is the triple of the first three.
  A schedule entry is \<open>(timeslot id, room id, course id)\<close>.
  \<open>all_schedules\<close> and each group's schedule are iterated, so they are association
  lists in insertion order; \<^const>\<open>AList.update\<close> stores as a Python dictionary does
  (in place for a key that exists, at the end for a new one).
\<close>

type_synonym hour_key = "int \<times> int \<times> nat \<times> nat"
type_synonym entry = "int \<times> int \<times> int"
type_synonym schedule = "(hour_key \<times> entry) list"
type_synonym schedules = "(int \<times> schedule) list"

record sched_state =
  all_schedules :: schedules
  global_tracker :: GroupScheduleTracker
  room_usage :: "int \<rightharpoonup> int set"

definition is_room_available :: "(int \<rightharpoonup> int set) \<Rightarrow> int \<Rightarrow> int list \<Rightarrow> bool" where
  "is_room_available ru room_id slot_ids =
     (case ru room_id of
        None \<Rightarrow> True
      | Some used \<Rightarrow> list_all (\<lambda>slot_id. slot_id \<notin> used) slot_ids)"

definition mark_room_used :: "(int \<rightharpoonup> int set) \<Rightarrow> int \<Rightarrow> int list \<Rightarrow> (int \<rightharpoonup> int set)" where
  "mark_room_used ru room_id slot_ids =
     ru(room_id \<mapsto> (case ru room_id of None \<Rightarrow> {} | Some used \<Rightarrow> used) \<union> set slot_ids)"

definition unmark_room_used :: "(int \<rightharpoonup> int set) \<Rightarrow> int \<Rightarrow> int list \<Rightarrow> (int \<rightharpoonup> int set)" where
  "unmark_room_used ru room_id slot_ids =
     (case ru room_id of None \<Rightarrow> ru | Some used \<Rightarrow> ru(room_id \<mapsto> used - set slot_ids))"

text \<open>\<open>all_schedules[group_id][hour_id] = v\<close>; a group with no schedule is a KeyError.\<close>

definition sched_set :: "schedules \<Rightarrow> int \<Rightarrow> hour_key \<Rightarrow> entry \<Rightarrow> schedules result" where
  "sched_set scheds group_id k v =
     (case map_of scheds group_id of
        None \<Rightarrow> Error KeyError
      | Some sched \<Rightarrow> Ok (AList.update group_id (AList.update k v sched) scheds))"


text \<open>
  \<open>for j, slot_id in enumerate(slot_ids): all_schedules[group_id][f"{block_id}_H{j}"] = ...\<close>
\<close>

fun write_hours ::
  "schedules \<Rightarrow> int \<Rightarrow> int \<times> int \<times> nat \<Rightarrow> nat \<Rightarrow> int list \<Rightarrow> int \<Rightarrow> int \<Rightarrow> schedules result" where
  "write_hours scheds group_id bk j [] room_id course_id = Ok scheds"
| "write_hours scheds group_id bk j (slot_id # rest) room_id course_id =
     (case sched_set scheds group_id (fst bk, fst (snd bk), snd (snd bk), j)
             (slot_id, room_id, course_id) of
        Error e \<Rightarrow> Error e
      | Ok scheds' \<Rightarrow> write_hours scheds' group_id bk (Suc j) rest room_id course_id)"

text \<open>Truth values of \<open>Optional[int]\<close> and \<open>Optional[str]\<close>: \<open>None\<close>, 0 and \<open>""\<close> are false.\<close>

definition truthy_int :: "int option \<Rightarrow> bool" where
  "truthy_int x = (case x of None \<Rightarrow> False | Some n \<Rightarrow> n \<noteq> 0)"

definition truthy_str :: "string option \<Rightarrow> bool" where
  "truthy_str x = (case x of None \<Rightarrow> False | Some s \<Rightarrow> s \<noteq> [])"

text \<open>\<open>'ingl\'es' in name.lower() or 'ingles' in name.lower()\<close>, with the e acute in UTF-8.\<close>

definition is_english_name :: "runtime \<Rightarrow> string \<Rightarrow> bool" where
  "is_english_name rt name =
     (sublist (''ingl'' @ [CHR 0xC3, CHR 0xA9] @ ''s'') (py_lower rt name)
      \<or> sublist ''ingles'' (py_lower rt name))"

section \<open>The position finder: find\_all\_valid\_positions\<close>

record Position =
  pos_day :: string
  pos_start_idx :: nat
  pos_slots :: "TimeSlot list"
  pos_slot_ids :: "int list"
  pos_first_hour :: string
  pos_room_id :: int
  pos_prof_id :: int

text \<open>\<open>start_time.split(':')[0]\<close>\<close>

definition hour_part :: "string \<Rightarrow> string" where
  "hour_part s = takeWhile (\<lambda>c. c \<noteq> CHR '':'') s"

text \<open>The loop over \<open>range(len(consecutive) - 1)\<close> that sets \<open>is_continuous\<close>.\<close>

fun is_continuous :: "runtime \<Rightarrow> TimeSlot list \<Rightarrow> bool result" where
  "is_continuous rt (a # b # rest) =
     (case py_int rt (hour_part (start_time a)) of
        None \<Rightarrow> Error ValueError
      | Some h1 \<Rightarrow>
          (case py_int rt (hour_part (start_time b)) of
             None \<Rightarrow> Error ValueError
           | Some h2 \<Rightarrow> if h2 - h1 \<noteq> 1 then Ok False else is_continuous rt (b # rest)))"
| "is_continuous rt [a] = Ok True"
| "is_continuous rt [] = Ok True"

text \<open>
  The body of the loop over \<open>start_idx\<close>: \<open>Ok None\<close> is a \<open>continue\<close>, \<open>Ok (Some p)\<close> the
  position appended. \<open>consecutive[0]\<close> of an empty window (duration 0) is an IndexError.
\<close>

definition check_window ::
  "runtime \<Rightarrow> SchedulingData \<Rightarrow> sched_state \<Rightarrow> int \<Rightarrow> int \<Rightarrow> int \<Rightarrow> bool \<Rightarrow> string option \<Rightarrow>
   string \<Rightarrow> TimeSlot list \<Rightarrow> nat \<Rightarrow> nat \<Rightarrow> Position option result" where
  "check_window rt data s group_id prof_id room_id is_english fixed_hour day day_slots duration idx =
     (let consecutive = take duration (drop idx day_slots) in
      case is_continuous rt consecutive of
        Error e \<Rightarrow> Error e
      | Ok continuous \<Rightarrow>
          if \<not> continuous then Ok None
          else (case consecutive of
                  [] \<Rightarrow> Error IndexError
                | s0 # _ \<Rightarrow>
                    (let hour = start_time s0; ids = map ts_id consecutive in
                     if \<not> is_professor_available_at_slots data prof_id ids then Ok None
                     else if is_english \<and> truthy_str fixed_hour \<and> Some hour \<noteq> fixed_hour
                       then Ok None
                     else if \<not> can_assign_professor (global_tracker s) prof_id ids then Ok None
                     else if \<not> can_assign_group (global_tracker s) group_id ids then Ok None
                     else if \<not> is_room_available (room_usage s) room_id ids then Ok None
                     else Ok (Some \<lparr> pos_day = day, pos_start_idx = idx, pos_slots = consecutive,
                                     pos_slot_ids = ids, pos_first_hour = hour,
                                     pos_room_id = room_id, pos_prof_id = prof_id \<rparr>))))"

fun collect_positions :: "(nat \<Rightarrow> Position option result) \<Rightarrow> nat list \<Rightarrow> Position list result" where
  "collect_positions f [] = Ok []"
| "collect_positions f (i # rest) =
     (case f i of
        Error e \<Rightarrow> Error e
      | Ok None \<Rightarrow> collect_positions f rest
      | Ok (Some p) \<Rightarrow>
          (case collect_positions f rest of Error e \<Rightarrow> Error e | Ok ps \<Rightarrow> Ok (p # ps)))"

definition find_all_valid_positions ::
  "runtime \<Rightarrow> Course \<Rightarrow> int \<Rightarrow> nat \<Rightarrow> string \<Rightarrow> SchedulingData \<Rightarrow> sched_state \<Rightarrow> bool \<Rightarrow>
   string option \<Rightarrow> Position list result" where
  "find_all_valid_positions rt course group_id duration day data s is_english fixed_hour =
     (case get_professor_for_group_course data group_id (c_id course) of
        None \<Rightarrow> Ok []
      | Some prof_id \<Rightarrow>
          if prof_id = 0 then Ok []
          else (case get_professor_room data prof_id of
                  None \<Rightarrow> Ok []
                | Some room_id \<Rightarrow>
                    if room_id = 0 then Ok []
                    else (case map_of (slots_by_day data) day of
                            None \<Rightarrow> Ok []
                          | Some day_slots \<Rightarrow>
                              collect_positions
                                (check_window rt data s group_id prof_id room_id is_english
                                   fixed_hour day day_slots duration)
                                [0 ..< Suc (length day_slots) - duration])))"

section \<open>Conflicting blocks: get\_conflicting\_blocks\<close>

record Hour =
  h_hour_id :: hour_key
  h_slot_id :: int
  h_room_id :: int

record Conflict =
  cf_block_key :: "int \<times> int \<times> nat"
  cf_group_id :: int
  cf_course_id :: int
  cf_course :: "Course option"
  cf_is_english :: bool
  cf_hours :: "Hour list"
  cf_all_slot_ids :: "int list"

text \<open>
  One step of the loop over \<open>schedule.items()\<close>: \<open>blocks_in_group\<close> maps a block key to
  the course id of the first hour seen and to the hours collected so far.
\<close>

definition add_hour ::
  "int list \<Rightarrow> hour_key \<times> entry \<Rightarrow> ((int \<times> int \<times> nat) \<times> int \<times> Hour list) list \<Rightarrow>
   ((int \<times> int \<times> nat) \<times> int \<times> Hour list) list" where
  "add_hour wanted e blocks =
     (case e of ((kg, kc, kb, kj), (slot_id, room_id, course_id)) \<Rightarrow>
        if slot_id \<in> set wanted then
          (let h = \<lparr> h_hour_id = (kg, kc, kb, kj), h_slot_id = slot_id, h_room_id = room_id \<rparr> in
           case map_of blocks (kg, kc, kb) of
             None \<Rightarrow> blocks @ [((kg, kc, kb), (course_id, [h]))]
           | Some (cid, hs) \<Rightarrow> AList.update (kg, kc, kb) (cid, hs @ [h]) blocks)
        else blocks)"

text \<open>
  \<open>is_english = course and (...)\<close> is \<open>None\<close> for a course id unknown to the index; it is
  only ever read as a truth value, so it is \<open>False\<close> here.
\<close>

definition make_conflict ::
  "runtime \<Rightarrow> SchedulingData \<Rightarrow> int \<Rightarrow> (int \<times> int \<times> nat) \<times> int \<times> Hour list \<Rightarrow> Conflict" where
  "make_conflict rt data other_group_id b =
     (case b of (bk, course_id, hs) \<Rightarrow>
        \<lparr> cf_block_key = bk, cf_group_id = other_group_id, cf_course_id = course_id,
          cf_course = courses data course_id,
          cf_is_english = (case courses data course_id of
                             None \<Rightarrow> False
                           | Some course \<Rightarrow> is_english_name rt (c_name course)),
          cf_hours = hs, cf_all_slot_ids = map h_slot_id hs \<rparr>)"

definition get_conflicting_blocks ::
  "runtime \<Rightarrow> int list \<Rightarrow> int \<Rightarrow> schedules \<Rightarrow> SchedulingData \<Rightarrow> Conflict list" where
  "get_conflicting_blocks rt wanted group_id scheds data =
     concat (map (\<lambda>(other_group_id, sched).
                    map (make_conflict rt data other_group_id) (fold (add_hour wanted) sched []))
                 scheds)"

section \<open>Relocation: try\_relocate\_block\<close>

text \<open>
  What every successful placement of one block does: the hour entries, the tracker, the
  room usage and, for a course with \<open>max_block_duration == 1\<close>, the used day.
\<close>

definition place_block ::
  "int \<Rightarrow> bool \<Rightarrow> int \<Rightarrow> int \<times> int \<times> nat \<Rightarrow> string \<Rightarrow> Position \<Rightarrow> sched_state \<Rightarrow>
   sched_state result" where
  "place_block course_id one_per_day group_id bk day pos s =
     (case write_hours (all_schedules s) group_id bk 0 (pos_slot_ids pos) (pos_room_id pos)
             course_id of
        Error e \<Rightarrow> Error e
      | Ok scheds \<Rightarrow>
          (let t1 = assign (global_tracker s) (pos_prof_id pos) group_id (pos_slot_ids pos)
                      course_id;
               t2 = (if one_per_day then add_day_for_course t1 group_id course_id day else t1)
           in Ok (s\<lparr> all_schedules := scheds, global_tracker := t2,
                     room_usage := mark_room_used (room_usage s) (pos_room_id pos)
                                     (pos_slot_ids pos) \<rparr>)))"

text \<open>The body of \<open>for day in days\<close> in \<open>try_relocate_block\<close>.\<close>

definition relocate_on_day ::
  "runtime \<Rightarrow> SchedulingData \<Rightarrow> Course \<Rightarrow> int \<Rightarrow> int \<Rightarrow> nat \<Rightarrow> bool \<Rightarrow> string option \<Rightarrow>
   string \<Rightarrow> sched_state \<times> rng \<Rightarrow> (bool \<times> sched_state \<times> rng) result" where
  "relocate_on_day rt data course group_id course_id duration is_english fixed_hour day st =
     (case st of (s, rng) \<Rightarrow>
        if max_block_duration course = 1
           \<and> day \<in> get_used_days_for_course (global_tracker s) group_id course_id
        then Ok (False, s, rng)
        else (case find_all_valid_positions rt course group_id duration day data s
                     is_english fixed_hour of
                Error e \<Rightarrow> Error e
              | Ok positions \<Rightarrow>
                  if positions = [] then Ok (False, s, rng)
                  else (case randbelow (length positions) rng of (i, rng1) \<Rightarrow>
                        case randbelow 9000 rng1 of (n, rng2) \<Rightarrow>
                        case place_block course_id (max_block_duration course = 1) group_id
                               (group_id, course_id, 1000 + n) day (positions ! i) s of
                          Error e \<Rightarrow> Error e
                        | Ok s' \<Rightarrow> Ok (True, s', rng2))))"

text \<open>
  \<open>old_day\<close> is the day of the first valid slot with the id of the block's first hour;
  \<open>if old_day and course.max_block_duration == 1\<close> guards both the removal of the day
  and its restoration (\<open>None\<close> and the empty string are false).
\<close>

definition day_to_restore :: "Course \<Rightarrow> TimeSlot option \<Rightarrow> string option" where
  "day_to_restore course old_slot =
     (case old_slot of
        None \<Rightarrow> None
      | Some sl \<Rightarrow> if ts_day sl \<noteq> [] \<and> max_block_duration course = 1
                   then Some (ts_day sl) else None)"

definition try_relocate_block ::
  "runtime \<Rightarrow> Conflict \<Rightarrow> SchedulingData \<Rightarrow> sched_state \<Rightarrow> rng \<Rightarrow>
   (bool \<times> sched_state \<times> rng) result" where
  "try_relocate_block rt conflict data s rng =
     (let group_id = cf_group_id conflict; course_id = cf_course_id conflict in
      case cf_course conflict of
        None \<Rightarrow> Ok (False, s, rng)
      | Some course \<Rightarrow>
      (case get_professor_for_group_course data group_id course_id of
         None \<Rightarrow> Ok (False, s, rng)
       | Some prof_id \<Rightarrow>
       if prof_id = 0 then Ok (False, s, rng)
       else (case cf_hours conflict of
          [] \<Rightarrow> Error IndexError
        | h0 # _ \<Rightarrow>
       (let old_slot_ids = map h_slot_id (cf_hours conflict);
            old_day = day_to_restore course
                        (find (\<lambda>sl. ts_id sl = h_slot_id h0) (valid_slots data))
        in case map_of (all_schedules s) group_id of
             None \<Rightarrow> Error KeyError
           | Some sched \<Rightarrow>
       (let sched1 = fold (\<lambda>h m. AList.delete (h_hour_id h) m) (cf_hours conflict) sched;
            t1 = unassign (global_tracker s) prof_id group_id old_slot_ids;
            ru1 = unmark_room_used (room_usage s) (h_room_id h0) old_slot_ids;
            t2 = (case old_day of
                    None \<Rightarrow> t1
                  | Some d \<Rightarrow> remove_day_for_course t1 group_id course_id d);
            is_english = cf_is_english conflict;
            fixed_hour = (if is_english then get_fixed_hour_for_course t2 group_id course_id
                          else None);
            s1 = s\<lparr> all_schedules := AList.update group_id sched1 (all_schedules s),
                    global_tracker := t2, room_usage := ru1 \<rparr>
        in case shuffle (map fst (slots_by_day data)) rng of (days, rng1) \<Rightarrow>
           (case first_success
                   (relocate_on_day rt data course group_id course_id (length (cf_hours conflict))
                      is_english fixed_hour) days (s1, rng1) of
              Error e \<Rightarrow> Error e
            | Ok (moved, s2, rng2) \<Rightarrow>
                if moved then Ok (True, s2, rng2)
                else (case for_each
                             (\<lambda>h scheds. sched_set scheds group_id (h_hour_id h)
                                            (h_slot_id h, h_room_id h, course_id))
                             (cf_hours conflict) (all_schedules s2) of
                        Error e \<Rightarrow> Error e
                      | Ok scheds \<Rightarrow>
                          (let t3 = assign (global_tracker s2) prof_id group_id old_slot_ids
                                      course_id;
                               t4 = (case old_day of
                                       None \<Rightarrow> t3
                                     | Some d \<Rightarrow> add_day_for_course t3 group_id course_id d)
                           in Ok (False,
                                  s2\<lparr> all_schedules := scheds, global_tracker := t4,
                                      room_usage := mark_room_used (room_usage s2)
                                                      (h_room_id h0) old_slot_ids \<rparr>,
                                  rng2)))))))))"

text \<open>
  The loop \<open>for conflict in ...: if try_relocate_block(...): moved.append(conflict)
  else: all_moved = False; break\<close>, shared by both placers: it stops at the first block
  that does not move and leaves the blocks moved before it where they now are.
\<close>

definition relocate_step ::
  "runtime \<Rightarrow> SchedulingData \<Rightarrow> Conflict \<Rightarrow> sched_state \<times> rng \<Rightarrow>
   (bool \<times> sched_state \<times> rng) result" where
  "relocate_step rt data conflict st =
     (case st of (s, rng) \<Rightarrow>
        case try_relocate_block rt conflict data s rng of
          Error e \<Rightarrow> Error e
        | Ok (moved, st') \<Rightarrow> Ok (\<not> moved, st'))"

definition relocate_all ::
  "runtime \<Rightarrow> SchedulingData \<Rightarrow> Conflict list \<Rightarrow> sched_state \<times> rng \<Rightarrow>
   (bool \<times> sched_state \<times> rng) result" where
  "relocate_all rt data conflicts st =
     (case first_success (relocate_step rt data) conflicts st of
        Error e \<Rightarrow> Error e
      | Ok (stopped, st') \<Rightarrow> Ok (\<not> stopped, st'))"

section \<open>The language-course placer\<close>

definition day_order :: "string list" where
  "day_order =
     [''Lunes'', ''Martes'', ''Mi'' @ [CHR 0xC3, CHR 0xA9] @ ''rcoles'', ''Jueves'', ''Viernes'',
      ''S'' @ [CHR 0xC3, CHR 0xA1] @ ''bado'', ''Domingo'']"

text \<open>\<open>list.index\<close> of an element of the list.\<close>

definition index_of :: "'a list \<Rightarrow> 'a \<Rightarrow> nat" where
  "index_of xs x = length (takeWhile (\<lambda>y. y \<noteq> x) xs)"

text \<open>\<open>all(indices[j+1] - indices[j] == 1 for j in range(len(indices)-1))\<close>\<close>

fun steps_of_one :: "nat list \<Rightarrow> bool" where
  "steps_of_one (a # b # r) = (int b - int a = 1 \<and> steps_of_one (b # r))"
| "steps_of_one [a] = True"
| "steps_of_one [] = True"

definition get_consecutive_day_sequences :: "string list \<Rightarrow> nat \<Rightarrow> string list list" where
  "get_consecutive_day_sequences days_list num_days =
     (let available_days = filter (\<lambda>d. d \<in> set days_list) day_order in
      concat (map (\<lambda>i. let seq = take num_days (drop i available_days) in
                       if steps_of_one (map (index_of day_order) seq) then [seq] else [])
                  [0 ..< Suc (length available_days) - num_days]))"

text \<open>The first slot of the day that starts at \<open>hour\<close>, or \<open>None\<close>.\<close>

definition slot_at_hour :: "TimeSlot list \<Rightarrow> string \<Rightarrow> TimeSlot option" where
  "slot_at_hour day_slots hour = find (\<lambda>sl. start_time sl = hour) day_slots"

text \<open>
  The loop \<open>for day in seq\<close> that fills \<open>positions\<close>: \<open>Ok None\<close> is \<open>all_valid = False\<close>.
  The loop that runs after a displacement is the same without the check of the
  professor's availability (\<open>chk\<close> is \<open>False\<close> there).
\<close>

fun english_positions ::
  "bool \<Rightarrow> SchedulingData \<Rightarrow> sched_state \<Rightarrow> int \<Rightarrow> int \<Rightarrow> int \<Rightarrow> string \<Rightarrow> string list \<Rightarrow>
   (string \<times> TimeSlot) list option result" where
  "english_positions chk data s prof_id group_id room_id hour [] = Ok (Some [])"
| "english_positions chk data s prof_id group_id room_id hour (day # rest) =
     (case map_of (slots_by_day data) day of
        None \<Rightarrow> Error KeyError
      | Some day_slots \<Rightarrow>
          (case slot_at_hour day_slots hour of
             None \<Rightarrow> Ok None
           | Some sl \<Rightarrow>
               if chk \<and> \<not> is_professor_available_at_slots data prof_id [ts_id sl] then Ok None
               else if \<not> can_assign_professor (global_tracker s) prof_id [ts_id sl] then Ok None
               else if \<not> can_assign_group (global_tracker s) group_id [ts_id sl] then Ok None
               else if \<not> is_room_available (room_usage s) room_id [ts_id sl] then Ok None
               else (case english_positions chk data s prof_id group_id room_id hour rest of
                       Error e \<Rightarrow> Error e
                     | Ok None \<Rightarrow> Ok None
                     | Ok (Some ps) \<Rightarrow> Ok (Some ((day, sl) # ps)))))"

text \<open>\<open>for block_num, pos in enumerate(positions, 1)\<close>: the commit of the placements.\<close>

fun english_commit ::
  "int \<Rightarrow> int \<Rightarrow> int \<Rightarrow> int \<Rightarrow> nat \<Rightarrow> (string \<times> TimeSlot) list \<Rightarrow> sched_state \<Rightarrow>
   sched_state result" where
  "english_commit course_id group_id prof_id room_id block_num [] s = Ok s"
| "english_commit course_id group_id prof_id room_id block_num (p # rest) s =
     (case sched_set (all_schedules s) group_id (group_id, course_id, block_num, 0)
             (ts_id (snd p), room_id, course_id) of
        Error e \<Rightarrow> Error e
      | Ok scheds \<Rightarrow>
          english_commit course_id group_id prof_id room_id (Suc block_num) rest
            (s\<lparr> all_schedules := scheds,
                global_tracker :=
                  add_day_for_course
                    (assign (global_tracker s) prof_id group_id [ts_id (snd p)] course_id)
                    group_id course_id (fst p),
                room_usage := mark_room_used (room_usage s) room_id [ts_id (snd p)] \<rparr>))"

definition english_place ::
  "int \<Rightarrow> int \<Rightarrow> int \<Rightarrow> int \<Rightarrow> string option \<Rightarrow> string \<Rightarrow> (string \<times> TimeSlot) list \<Rightarrow>
   sched_state \<Rightarrow> sched_state result" where
  "english_place course_id group_id prof_id room_id fixed_hour hour positions s =
     (case english_commit course_id group_id prof_id room_id 1 positions s of
        Error e \<Rightarrow> Error e
      | Ok s' \<Rightarrow>
          if truthy_str fixed_hour then Ok s'
          else Ok (s'\<lparr>global_tracker :=
                       set_fixed_hour_for_course (global_tracker s') group_id course_id hour\<rparr>))"

text \<open>The body of \<open>for hour in hours_to_try\<close> of the direct phase.\<close>

definition english_try_hour ::
  "SchedulingData \<Rightarrow> int \<Rightarrow> int \<Rightarrow> int \<Rightarrow> int \<Rightarrow> string option \<Rightarrow> nat \<Rightarrow> string list \<Rightarrow>
   string \<Rightarrow> sched_state \<Rightarrow> (bool \<times> sched_state) result" where
  "english_try_hour data course_id group_id prof_id room_id fixed_hour num_blocks seq hour s =
     (case english_positions True data s prof_id group_id room_id hour seq of
        Error e \<Rightarrow> Error e
      | Ok None \<Rightarrow> Ok (False, s)
      | Ok (Some positions) \<Rightarrow>
          if length positions = num_blocks then
            (case english_place course_id group_id prof_id room_id fixed_hour hour positions s of
               Error e \<Rightarrow> Error e
             | Ok s' \<Rightarrow> Ok (True, s'))
          else Ok (False, s))"

text \<open>\<open>[fixed_hour] if fixed_hour else hours\<close>\<close>

definition fixed_or :: "string option \<Rightarrow> string list \<Rightarrow> string list" where
  "fixed_or fixed_hour hs =
     (case fixed_hour of None \<Rightarrow> hs | Some h \<Rightarrow> if h = [] then hs else [h])"

text \<open>The start times added to the set \<open>hours_to_try\<close>, in the order of insertion.\<close>

fun seq_start_times :: "SchedulingData \<Rightarrow> string list \<Rightarrow> string list result" where
  "seq_start_times data [] = Ok []"
| "seq_start_times data (day # rest) =
     (case map_of (slots_by_day data) day of
        None \<Rightarrow> Error KeyError
      | Some day_slots \<Rightarrow>
          (case seq_start_times data rest of
             Error e \<Rightarrow> Error e
           | Ok hs \<Rightarrow> Ok (map start_time day_slots @ hs)))"

text \<open>
  The body of the first \<open>for seq in sequences\<close>. The state carries \<open>hours_to_try\<close>,
  which the displacement phase reads after the loop. The list is shuffled even when a
  fixed hour replaces it.
\<close>

definition english_direct_seq ::
  "runtime \<Rightarrow> SchedulingData \<Rightarrow> int \<Rightarrow> int \<Rightarrow> int \<Rightarrow> int \<Rightarrow> string option \<Rightarrow> nat \<Rightarrow>
   string list \<Rightarrow> string list \<times> sched_state \<times> rng \<Rightarrow>
   (bool \<times> string list \<times> sched_state \<times> rng) result" where
  "english_direct_seq rt data course_id group_id prof_id room_id fixed_hour num_blocks seq st =
     (case st of (hours_before, s, rng) \<Rightarrow>
        case seq_start_times data seq of
          Error e \<Rightarrow> Error e
        | Ok inserted \<Rightarrow>
            (case shuffle (str_set_order rt inserted) rng of (shuffled, rng1) \<Rightarrow>
               (let hours_to_try = fixed_or fixed_hour shuffled
                in case first_success
                          (english_try_hour data course_id group_id prof_id room_id fixed_hour
                             num_blocks seq) hours_to_try s of
                     Error e \<Rightarrow> Error e
                   | Ok (placed, s') \<Rightarrow> Ok (placed, hours_to_try, s', rng1))))"

text \<open>
  The loop \<open>for day in seq\<close> of the displacement phase that fills \<open>conflicts_to_move\<close>:
  \<open>Ok None\<close> is \<open>can_potentially_work = False\<close>, set when a day has no slot at the hour,
  the professor is unavailable, or a conflicting block is a language-course block.
\<close>

fun english_gather ::
  "runtime \<Rightarrow> SchedulingData \<Rightarrow> schedules \<Rightarrow> int \<Rightarrow> int \<Rightarrow> string \<Rightarrow> string list \<Rightarrow>
   Conflict list option result" where
  "english_gather rt data scheds prof_id group_id hour [] = Ok (Some [])"
| "english_gather rt data scheds prof_id group_id hour (day # rest) =
     (case map_of (slots_by_day data) day of
        None \<Rightarrow> Error KeyError
      | Some day_slots \<Rightarrow>
          (case slot_at_hour day_slots hour of
             None \<Rightarrow> Ok None
           | Some sl \<Rightarrow>
               if \<not> is_professor_available_at_slots data prof_id [ts_id sl] then Ok None
               else (let conflicts = get_conflicting_blocks rt [ts_id sl] group_id scheds data in
                     if list_ex cf_is_english conflicts then Ok None
                     else (case english_gather rt data scheds prof_id group_id hour rest of
                             Error e \<Rightarrow> Error e
                           | Ok None \<Rightarrow> Ok None
                           | Ok (Some cs) \<Rightarrow> Ok (Some (conflicts @ cs))))))"

text \<open>The body of \<open>for hour in target_hours\<close> of the displacement phase.\<close>

definition english_displace_hour ::
  "runtime \<Rightarrow> SchedulingData \<Rightarrow> int \<Rightarrow> int \<Rightarrow> int \<Rightarrow> int \<Rightarrow> string option \<Rightarrow> nat \<Rightarrow>
   string list \<Rightarrow> string \<Rightarrow> sched_state \<times> rng \<Rightarrow> (bool \<times> sched_state \<times> rng) result" where
  "english_displace_hour rt data course_id group_id prof_id room_id fixed_hour num_blocks seq
     hour st =
     (case st of (s, rng) \<Rightarrow>
        case english_gather rt data (all_schedules s) prof_id group_id hour seq of
          Error e \<Rightarrow> Error e
        | Ok None \<Rightarrow> Ok (False, s, rng)
        | Ok (Some conflicts_to_move) \<Rightarrow>
            if conflicts_to_move = [] then Ok (False, s, rng)
            else (case relocate_all rt data conflicts_to_move (s, rng) of
                    Error e \<Rightarrow> Error e
                  | Ok (all_moved, s1, rng1) \<Rightarrow>
                      if \<not> all_moved then Ok (False, s1, rng1)
                      else (case english_positions False data s1 prof_id group_id room_id
                                   hour seq of
                              Error e \<Rightarrow> Error e
                            | Ok None \<Rightarrow> Ok (False, s1, rng1)
                            | Ok (Some positions) \<Rightarrow>
                                if length positions = num_blocks then
                                  (case english_place course_id group_id prof_id room_id
                                          fixed_hour hour positions s1 of
                                     Error e \<Rightarrow> Error e
                                   | Ok s2 \<Rightarrow> Ok (True, s2, rng1))
                                else Ok (False, s1, rng1))))"

text \<open>The body of \<open>for attempt in range(max_attempts)\<close>: the direct phase, then the
  displacement phase over the same sequences.\<close>

definition english_attempt ::
  "runtime \<Rightarrow> SchedulingData \<Rightarrow> int \<Rightarrow> int \<Rightarrow> int \<Rightarrow> int \<Rightarrow> string option \<Rightarrow> nat \<Rightarrow>
   string list list \<Rightarrow> nat \<Rightarrow> string list \<times> sched_state \<times> rng \<Rightarrow>
   (bool \<times> string list \<times> sched_state \<times> rng) result" where
  "english_attempt rt data course_id group_id prof_id room_id fixed_hour num_blocks sequences
     attempt st =
     (case first_success
             (english_direct_seq rt data course_id group_id prof_id room_id fixed_hour
                num_blocks) sequences st of
        Error e \<Rightarrow> Error e
      | Ok (placed, hours_to_try, s1, rng1) \<Rightarrow>
          if placed then Ok (True, hours_to_try, s1, rng1)
          else (let target_hours = fixed_or fixed_hour hours_to_try
                in case first_success
                          (\<lambda>seq. first_success
                                    (english_displace_hour rt data course_id group_id prof_id
                                       room_id fixed_hour num_blocks seq) target_hours)
                          sequences (s1, rng1) of
                     Error e \<Rightarrow> Error e
                   | Ok (placed2, s2, rng2) \<Rightarrow> Ok (placed2, hours_to_try, s2, rng2)))"

text \<open>
  \<open>prof_id\<close> and \<open>room_id\<close> are the two lookups of the first lines of the function; its
  only caller has just made the same lookups in the same index and returned unless both
  were present and non-zero, so they are arguments here.
\<close>

definition assign_english_consecutive_days ::
  "runtime \<Rightarrow> Course \<Rightarrow> int \<Rightarrow> int \<Rightarrow> int \<Rightarrow> SchedulingData \<Rightarrow> sched_state \<Rightarrow> nat list \<Rightarrow>
   string option \<Rightarrow> nat \<Rightarrow> rng \<Rightarrow> (bool \<times> sched_state \<times> rng) result" where
  "assign_english_consecutive_days rt course group_id prof_id room_id data s block_durations
     fixed_hour max_attempts rng =
     (let num_blocks = length block_durations;
          sequences = get_consecutive_day_sequences (map fst (slots_by_day data)) num_blocks
      in if sequences = [] then Ok (False, s, rng)
         else (case shuffle sequences rng of (shuffled, rng1) \<Rightarrow>
               case first_success
                      (english_attempt rt data (c_id course) group_id prof_id room_id
                         fixed_hour num_blocks shuffled)
                      [0 ..< max_attempts] ([], s, rng1) of
                 Error e \<Rightarrow> Error e
               | Ok (placed, hours_to_try, s', rng') \<Rightarrow> Ok (placed, s', rng')))"

section \<open>The generic placer: force\_assign\_with\_displacement\<close>

text \<open>
  The commit of a position found for block \<open>block_num\<close>, with the update of the local
  \<open>fixed_hour\<close> and of the tracker's fixed hour at the first placement of a language course.
\<close>

definition commit_position ::
  "Course \<Rightarrow> int \<Rightarrow> bool \<Rightarrow> nat \<Rightarrow> string \<Rightarrow> Position \<Rightarrow> string option \<Rightarrow> sched_state \<Rightarrow>
   (string option \<times> sched_state) result" where
  "commit_position course group_id is_english block_num day pos fixed_hour s =
     (case place_block (c_id course) (max_block_duration course = 1) group_id
             (group_id, c_id course, block_num) day pos s of
        Error e \<Rightarrow> Error e
      | Ok s' \<Rightarrow>
          if is_english \<and> \<not> truthy_str fixed_hour
          then Ok (Some (pos_first_hour pos),
                   s'\<lparr>global_tracker :=
                        set_fixed_hour_for_course (global_tracker s') group_id (c_id course)
                          (pos_first_hour pos)\<rparr>)
          else Ok (fixed_hour, s'))"

text \<open>The body of the first \<open>for day in days\<close>: a free position of the day, chosen at random.\<close>

definition direct_on_day ::
  "runtime \<Rightarrow> SchedulingData \<Rightarrow> Course \<Rightarrow> int \<Rightarrow> bool \<Rightarrow> nat \<Rightarrow> nat \<Rightarrow> string \<Rightarrow>
   string option \<times> sched_state \<times> rng \<Rightarrow> (bool \<times> string option \<times> sched_state \<times> rng) result" where
  "direct_on_day rt data course group_id is_english duration block_num day st =
     (case st of (fixed_hour, s, rng) \<Rightarrow>
        if max_block_duration course = 1
           \<and> day \<in> get_used_days_for_course (global_tracker s) group_id (c_id course)
        then Ok (False, st)
        else (case find_all_valid_positions rt course group_id duration day data s
                     is_english fixed_hour of
                Error e \<Rightarrow> Error e
              | Ok positions \<Rightarrow>
                  if positions = [] then Ok (False, st)
                  else (case randbelow (length positions) rng of (i, rng1) \<Rightarrow>
                        case commit_position course group_id is_english block_num day
                               (positions ! i) fixed_hour s of
                          Error e \<Rightarrow> Error e
                        | Ok (fixed_hour', s') \<Rightarrow> Ok (True, fixed_hour', s', rng1))))"

text \<open>
  The body of \<open>for start_idx in range(...)\<close> of the displacement loop: the blocks found
  by \<open>get_conflicting_blocks\<close> that are not language-course blocks are relocated one by
  one; if all of them moved, the first valid position of the day is taken.
\<close>

definition displace_window ::
  "runtime \<Rightarrow> SchedulingData \<Rightarrow> Course \<Rightarrow> int \<Rightarrow> int \<Rightarrow> bool \<Rightarrow> nat \<Rightarrow> nat \<Rightarrow> string \<Rightarrow>
   TimeSlot list \<Rightarrow> nat \<Rightarrow> string option \<times> sched_state \<times> rng \<Rightarrow>
   (bool \<times> string option \<times> sched_state \<times> rng) result" where
  "displace_window rt data course group_id prof_id is_english duration block_num day day_slots
     idx st =
     (case st of (fixed_hour, s, rng) \<Rightarrow>
        (let consecutive = take duration (drop idx day_slots); ids = map ts_id consecutive in
         case consecutive of
           [] \<Rightarrow> Error IndexError
         | s0 # _ \<Rightarrow>
             if \<not> is_professor_available_at_slots data prof_id ids then Ok (False, st)
             else if is_english \<and> truthy_str fixed_hour \<and> Some (start_time s0) \<noteq> fixed_hour
               then Ok (False, st)
             else (let conflicts = get_conflicting_blocks rt ids group_id (all_schedules s) data;
                       movable = filter (\<lambda>c. \<not> cf_is_english c) conflicts
                   in if movable = [] then Ok (False, st)
                      else (case relocate_all rt data movable (s, rng) of
                              Error e \<Rightarrow> Error e
                            | Ok (all_moved, s1, rng1) \<Rightarrow>
                                if \<not> all_moved then Ok (False, fixed_hour, s1, rng1)
                                else (case find_all_valid_positions rt course group_id duration
                                             day data s1 is_english fixed_hour of
                                        Error e \<Rightarrow> Error e
                                      | Ok positions \<Rightarrow>
                                          (case positions of
                                             [] \<Rightarrow> Ok (False, fixed_hour, s1, rng1)
                                           | pos # _ \<Rightarrow>
                                               (case commit_position course group_id is_english
                                                       block_num day pos fixed_hour s1 of
                                                  Error e \<Rightarrow> Error e
                                                | Ok (fixed_hour', s2) \<Rightarrow>
                                                    Ok (True, fixed_hour', s2, rng1))))))))"

text \<open>The body of the second \<open>for day in days\<close>, run when no day had a free position.\<close>

definition displace_on_day ::
  "runtime \<Rightarrow> SchedulingData \<Rightarrow> Course \<Rightarrow> int \<Rightarrow> int \<Rightarrow> bool \<Rightarrow> nat \<Rightarrow> nat \<Rightarrow> string \<Rightarrow>
   string option \<times> sched_state \<times> rng \<Rightarrow> (bool \<times> string option \<times> sched_state \<times> rng) result" where
  "displace_on_day rt data course group_id prof_id is_english duration block_num day st =
     (case st of (fixed_hour, s, rng) \<Rightarrow>
        if max_block_duration course = 1
           \<and> day \<in> get_used_days_for_course (global_tracker s) group_id (c_id course)
        then Ok (False, st)
        else (let day_slots = (case map_of (slots_by_day data) day of
                                 None \<Rightarrow> [] | Some l \<Rightarrow> l)
              in first_success
                   (displace_window rt data course group_id prof_id is_english duration
                      block_num day day_slots)
                   [0 ..< Suc (length day_slots) - duration] st))"

text \<open>One round of \<open>while not assigned and attempts < max_attempts\<close>.\<close>

definition block_attempt ::
  "runtime \<Rightarrow> SchedulingData \<Rightarrow> Course \<Rightarrow> int \<Rightarrow> int \<Rightarrow> bool \<Rightarrow> nat \<Rightarrow> nat \<Rightarrow> nat \<Rightarrow>
   string option \<times> sched_state \<times> rng \<Rightarrow> (bool \<times> string option \<times> sched_state \<times> rng) result" where
  "block_attempt rt data course group_id prof_id is_english duration block_num attempt st =
     (case st of (fixed_hour, s, rng) \<Rightarrow>
        case shuffle (map fst (slots_by_day data)) rng of (days, rng1) \<Rightarrow>
        case first_success
               (direct_on_day rt data course group_id is_english duration block_num)
               days (fixed_hour, s, rng1) of
          Error e \<Rightarrow> Error e
        | Ok (assigned, st1) \<Rightarrow>
            if assigned then Ok (True, st1)
            else first_success
                   (displace_on_day rt data course group_id prof_id is_english duration
                      block_num) days st1)"

text \<open>The body of \<open>for block_idx, duration in enumerate(block_durations)\<close>.\<close>

definition assign_block ::
  "runtime \<Rightarrow> SchedulingData \<Rightarrow> Course \<Rightarrow> int \<Rightarrow> int \<Rightarrow> bool \<Rightarrow> nat \<Rightarrow> nat \<times> nat \<Rightarrow>
   string option \<times> nat \<times> sched_state \<times> rng \<Rightarrow> (string option \<times> nat \<times> sched_state \<times> rng) result" where
  "assign_block rt data course group_id prof_id is_english max_attempts b st =
     (case st of (fixed_hour, blocks_assigned, s, rng) \<Rightarrow>
        case first_success
               (block_attempt rt data course group_id prof_id is_english (snd b) (fst b + 1))
               [0 ..< max_attempts] (fixed_hour, s, rng) of
          Error e \<Rightarrow> Error e
        | Ok (assigned, fixed_hour', s', rng') \<Rightarrow>
            Ok (fixed_hour', (if assigned then blocks_assigned + 1 else blocks_assigned),
                s', rng'))"

definition force_assign_with_displacement ::
  "runtime \<Rightarrow> Course \<Rightarrow> int \<Rightarrow> SchedulingData \<Rightarrow> sched_state \<Rightarrow> bool \<Rightarrow> nat list \<Rightarrow> nat \<Rightarrow>
   rng \<Rightarrow> (bool \<times> sched_state \<times> rng) result" where
  "force_assign_with_displacement rt course group_id data s is_english block_durations
     max_attempts rng =
     (case get_professor_for_group_course data group_id (c_id course) of
        None \<Rightarrow> Ok (False, s, rng)
      | Some prof_id \<Rightarrow>
          if prof_id = 0 then Ok (False, s, rng)
          else (case get_professor_room data prof_id of
                  None \<Rightarrow> Ok (False, s, rng)
                | Some room_id \<Rightarrow>
                    if room_id = 0 then Ok (False, s, rng)
                    else (let fixed_hour =
                                (if is_english
                                 then get_fixed_hour_for_course (global_tracker s) group_id
                                        (c_id course)
                                 else None)
                          in if is_english \<and> max_block_duration course = 1
                             then assign_english_consecutive_days rt course group_id prof_id
                                    room_id data s block_durations fixed_hour max_attempts rng
                             else (case for_each
                                          (assign_block rt data course group_id prof_id
                                             is_english max_attempts)
                                          (enumerate 0 block_durations)
                                          (fixed_hour, 0, s, rng) of
                                     Error e \<Rightarrow> Error e
                                   | Ok (fixed_hour', blocks_assigned, s', rng') \<Rightarrow>
                                       Ok (blocks_assigned = length block_durations,
                                           s', rng')))))"

section \<open>The orchestrator: generate\_schedule\_for\_all\_groups\<close>

text \<open>\<open>unique_courses\<close>: the courses of the assignments, in the order of first use.\<close>

definition add_unique_course ::
  "SchedulingData \<Rightarrow> ProfessorCourseGroupAssignment \<Rightarrow> (int \<times> Course) list \<Rightarrow>
   (int \<times> Course) list" where
  "add_unique_course data a unique =
     (case map_of unique (a_course_id a) of
        Some c \<Rightarrow> unique
      | None \<Rightarrow>
          (case courses data (a_course_id a) of
             None \<Rightarrow> unique
           | Some course \<Rightarrow> unique @ [(a_course_id a, course)]))"

text \<open>
  \<open>english + others\<close>, \<open>others\<close> sorted by \<open>weekly_hours\<close> with \<open>reverse=True\<close>: a sort
  that keeps the order of courses with equal hours, as the stable ascending sort of the
  reversed list, reversed.
\<close>

definition sorted_courses :: "runtime \<Rightarrow> Course list \<Rightarrow> Course list" where
  "sorted_courses rt courses_list =
     (let english = filter (\<lambda>c. is_english_name rt (c_name c)) courses_list;
          others = filter (\<lambda>c. c \<notin> set english) courses_list
      in english @ rev (sort_key weekly_hours (rev others)))"

text \<open>The body of \<open>for course in sorted_courses\<close>; \<open>max_attempts\<close> has its default, 50.\<close>

definition place_course ::
  "runtime \<Rightarrow> SchedulingData \<Rightarrow> ProfessorCourseGroupAssignment list \<Rightarrow> Course list \<Rightarrow> Course \<Rightarrow>
   sched_state \<times> rng \<Rightarrow> (sched_state \<times> rng) result" where
  "place_course rt data assignments english course st =
     (let is_english = (course \<in> set english);
          groups_with_course =
            int_set_order rt
              (map a_group_id (filter (\<lambda>a. a_course_id a = c_id course) assignments))
      in case calculate_course_blocks course of
           None \<Rightarrow> Error Diverges
         | Some block_durations \<Rightarrow>
             for_each
               (\<lambda>group_id st. case st of (s, rng) \<Rightarrow>
                  (case force_assign_with_displacement rt course group_id data s is_english
                          block_durations 50 rng of
                     Error e \<Rightarrow> Error e
                   | Ok (success, st') \<Rightarrow> Ok st'))
               groups_with_course st)"

text \<open>
  The second pass. \<open>courses_assigned\<close> is counted once per group, before the loop over
  the assignments; the body below is that loop's.
\<close>

definition verify_assignment ::
  "runtime \<Rightarrow> SchedulingData \<Rightarrow> Group \<Rightarrow> schedule \<Rightarrow> ProfessorCourseGroupAssignment \<Rightarrow>
   sched_state \<times> rng \<Rightarrow> (sched_state \<times> rng) result" where
  "verify_assignment rt data grp counted a st =
     (case st of (s, rng) \<Rightarrow>
        if a_group_id a = g_id grp then
          (case courses data (a_course_id a) of
             None \<Rightarrow> Ok st
           | Some course \<Rightarrow>
               (let assigned = length (filter (\<lambda>e. snd (snd (snd e)) = c_id course) counted) in
                if assigned < weekly_hours course then
                  (case force_assign_with_displacement rt course (g_id grp) data s
                          (is_english_name rt (c_name course))
                          (replicate (weekly_hours course - assigned) 1) 100 rng of
                     Error e \<Rightarrow> Error e
                   | Ok (success, st') \<Rightarrow> Ok st')
                else Ok st))
        else Ok st)"

definition verify_group ::
  "runtime \<Rightarrow> SchedulingData \<Rightarrow> ProfessorCourseGroupAssignment list \<Rightarrow> Group \<Rightarrow>
   sched_state \<times> rng \<Rightarrow> (sched_state \<times> rng) result" where
  "verify_group rt data assignments grp st =
     (case map_of (all_schedules (fst st)) (g_id grp) of
        None \<Rightarrow> Error KeyError
      | Some counted \<Rightarrow> for_each (verify_assignment rt data grp counted) assignments st)"

text \<open>The whole run, up to the summary that only prints; it returns the final state.\<close>

definition run_all_groups ::
  "runtime \<Rightarrow> Course list \<Rightarrow> Room list \<Rightarrow> TimeSlot list \<Rightarrow> Professor list \<Rightarrow>
   ProfessorCourseGroupAssignment list \<Rightarrow> (int \<rightharpoonup> int) \<Rightarrow> Group list \<Rightarrow> rng \<Rightarrow>
   (sched_state \<times> rng) result" where
  "run_all_groups rt cs rs timeslots profs assignments prof_rooms groups rng =
     (let data = init_SchedulingData cs rs timeslots profs assignments prof_rooms;
          s0 = \<lparr> all_schedules = fold (\<lambda>g m. AList.update (g_id g) [] m) groups [],
                 global_tracker = init_GroupScheduleTracker,
                 room_usage = Map.empty \<rparr>;
          courses_list = map snd (fold (add_unique_course data) assignments []);
          english = filter (\<lambda>c. is_english_name rt (c_name c)) courses_list
      in case for_each (place_course rt data assignments english)
                (sorted_courses rt courses_list) (s0, rng) of
           Error e \<Rightarrow> Error e
         | Ok st1 \<Rightarrow> for_each (verify_group rt data assignments) groups st1)"

definition generate_schedule_for_all_groups ::
  "runtime \<Rightarrow> Course list \<Rightarrow> Room list \<Rightarrow> TimeSlot list \<Rightarrow> Professor list \<Rightarrow>
   ProfessorCourseGroupAssignment list \<Rightarrow> (int \<rightharpoonup> int) \<Rightarrow> Group list \<Rightarrow> rng \<Rightarrow>
   schedules result" where
  "generate_schedule_for_all_groups rt cs rs timeslots profs assignments prof_rooms groups rng =
     (case run_all_groups rt cs rs timeslots profs assignments prof_rooms groups rng of
        Error e \<Rightarrow> Error e
      | Ok (s, rng') \<Rightarrow> Ok (all_schedules s))"

section \<open>Predicates used to state the properties\<close>

text \<open>
  What the constructor of the index establishes for \<open>slots_by_day\<close>: the slots listed
  under a day are valid slots of that day.
\<close>

definition slots_by_day_ok :: "SchedulingData \<Rightarrow> bool" where
  "slots_by_day_ok data =
     (\<forall>(d, l) \<in> set (slots_by_day data).
        \<forall>sl \<in> set l. ts_day sl = d \<and> sl \<in> set (valid_slots data))"





text \<open>
  An element of \<open>blocks_in_group\<close>, as the loop over a schedule builds it: its hours are
  entries of the schedule under keys of the block, and its course id is that of such an
  entry.
\<close>

definition block_from :: "schedule \<Rightarrow> (int \<times> int \<times> nat) \<times> int \<times> Hour list \<Rightarrow> bool" where
  "block_from sched b =
     (case b of (bk, cid, hs) \<Rightarrow>
        hs \<noteq> []
      \<and> (\<forall>h \<in> set hs. (\<exists>c'. (h_hour_id h, (h_slot_id h, h_room_id h, c')) \<in> set sched)
             \<and> (fst (h_hour_id h), fst (snd (h_hour_id h)), fst (snd (snd (h_hour_id h)))) = bk)
      \<and> (\<exists>kj sid room. ((fst bk, fst (snd bk), snd (snd bk), kj), (sid, room, cid))
             \<in> set sched))"


text \<open>
  What the constructor of the index establishes beyond \<open>slots_by_day_ok\<close>: the valid
  slots start inside the window, and a course is stored under its own id.
\<close>

definition index_ok :: "SchedulingData \<Rightarrow> bool" where
  "index_ok data =
     (slots_by_day_ok data
      \<and> (\<forall>sl \<in> set (valid_slots data). in_window sl)
      \<and> (\<forall>k course. courses data k = Some course \<longrightarrow> c_id course = k))"

text \<open>The course with this id is a language course, by the test the scheduler applies.\<close>

definition english_course :: "runtime \<Rightarrow> SchedulingData \<Rightarrow> int \<Rightarrow> bool" where
  "english_course rt data cid =
     (case courses data cid of
        None \<Rightarrow> False
      | Some course \<Rightarrow> is_english_name rt (c_name course))"

text \<open>
  The invariant of the schedule, per entry of the schedule of group \<open>g\<close>, with \<open>fh\<close> the
  tracker's \<open>course_fixed_hour\<close>: the key names the entry's course; the slot id is the id
  of a valid slot; for a language course, the pair \<open>(g, course)\<close> has a non-empty fixed
  hour, and the first hour of a block (hour index 0) is a valid slot that starts at it.
\<close>

definition entry_ok ::
  "runtime \<Rightarrow> SchedulingData \<Rightarrow> ((int \<times> int) \<rightharpoonup> string) \<Rightarrow> int \<Rightarrow> hour_key \<times> entry \<Rightarrow> bool" where
  "entry_ok rt data fh g e =
     (case e of ((kg, kc, kb, kj), (sid, room, cid)) \<Rightarrow>
        kc = cid
      \<and> (\<exists>sl \<in> set (valid_slots data). ts_id sl = sid)
      \<and> (english_course rt data cid \<longrightarrow>
           (\<exists>h. fh (g, cid) = Some h \<and> h \<noteq> []
              \<and> (kj = 0 \<longrightarrow>
                   (\<exists>sl \<in> set (valid_slots data). ts_id sl = sid \<and> start_time sl = h)))))"

definition entries_all :: "(int \<Rightarrow> hour_key \<times> entry \<Rightarrow> bool) \<Rightarrow> schedules \<Rightarrow> bool" where
  "entries_all P scheds = (\<forall>gs \<in> set scheds. \<forall>e \<in> set (snd gs). P (fst gs) e)"

definition sched_ok :: "runtime \<Rightarrow> SchedulingData \<Rightarrow> sched_state \<Rightarrow> bool" where
  "sched_ok rt data s =
     entries_all (entry_ok rt data (course_fixed_hour (global_tracker s))) (all_schedules s)"

text \<open>
  What holds of every position the position finder returns: its slots are valid slots, its
  slot ids are theirs, its first hour is the start of the first of them, and it starts
  at the fixed hour when the course is a language course that has one.
\<close>

definition position_ok :: "SchedulingData \<Rightarrow> bool \<Rightarrow> string option \<Rightarrow> Position \<Rightarrow> bool" where
  "position_ok data is_english fixed_hour pos =
     (pos_slots pos \<noteq> []
      \<and> set (pos_slots pos) \<subseteq> set (valid_slots data)
      \<and> pos_slot_ids pos = map ts_id (pos_slots pos)
      \<and> pos_first_hour pos = start_time (hd (pos_slots pos))
      \<and> (is_english \<and> truthy_str fixed_hour \<longrightarrow> Some (pos_first_hour pos) = fixed_hour))"

text \<open>
  What the generic placer maintains between two steps of its loops: the schedules are
  well formed and the local \<open>fixed_hour\<close> is the tracker's when the course is placed as a
  language course, and \<open>None\<close> otherwise.
\<close>

definition placer_inv ::
  "runtime \<Rightarrow> SchedulingData \<Rightarrow> int \<Rightarrow> int \<Rightarrow> bool \<Rightarrow> string option \<times> sched_state \<times> rng \<Rightarrow> bool" where
  "placer_inv rt data group_id course_id is_english st =
     (case st of (fixed_hour, s, rng) \<Rightarrow>
        sched_ok rt data s
      \<and> fixed_hour = (if is_english
                      then course_fixed_hour (global_tracker s) (group_id, course_id)
                      else None))"

text \<open>
  A block handed to \<open>try_relocate_block\<close> by either placer: not a language-course block,
  flagged as the index says, and made of hours that satisfy the invariant.
\<close>

definition conflict_ok ::
  "runtime \<Rightarrow> SchedulingData \<Rightarrow> ((int \<times> int) \<rightharpoonup> string) \<Rightarrow> Conflict \<Rightarrow> bool" where
  "conflict_ok rt data fh c =
     (\<not> cf_is_english c \<and> \<not> english_course rt data (cf_course_id c)
      \<and> (\<forall>h \<in> set (cf_hours c).
            entry_ok rt data fh (cf_group_id c)
              (h_hour_id h, (h_slot_id h, h_room_id h, cf_course_id c))))"

text \<open>
  The states between two calls of the placer. The orchestrator starts from one empty
  schedule per group, an empty tracker and no room in use, and from then on the three
  structures change only inside \<open>force_assign_with_displacement\<close>, which both passes call
  for a course of the index with the language flag computed from the course's name.
\<close>

inductive reached :: "runtime \<Rightarrow> SchedulingData \<Rightarrow> Group list \<Rightarrow> sched_state \<Rightarrow> bool"
  for rt :: runtime and data :: SchedulingData and groups :: "Group list" where
  start:
    "reached rt data groups
       \<lparr> all_schedules = fold (\<lambda>g m. AList.update (g_id g) [] m) groups [],
         global_tracker = init_GroupScheduleTracker,
         room_usage = Map.empty \<rparr>"
| placer:
    "reached rt data groups s \<Longrightarrow>
     courses data course_id = Some course \<Longrightarrow>
     force_assign_with_displacement rt course group_id data s
       (is_english_name rt (c_name course)) block_durations max_attempts rng = Ok (b, s', rng') \<Longrightarrow>
     reached rt data groups s'"

text \<open>
  The slot id is the id of a timeslot of the input that starts in the evening window;
  when the ids of the input are distinct, the timeslot with this id is that one.
\<close>

definition slot_in_window :: "TimeSlot list \<Rightarrow> int \<Rightarrow> bool" where
  "slot_in_window timeslots sid =
     ((\<exists>sl \<in> set timeslots. ts_id sl = sid \<and> in_window sl)
      \<and> (distinct (map ts_id timeslots) \<longrightarrow>
           (\<forall>sl \<in> set timeslots. ts_id sl = sid \<longrightarrow> in_window sl)))"

text \<open>Every slot id stored in the schedules is the id of a timeslot in the window.\<close>

definition all_in_window :: "TimeSlot list \<Rightarrow> schedules \<Rightarrow> bool" where
  "all_in_window timeslots scheds =
     (\<forall>gs \<in> set scheds. \<forall>e \<in> set (snd gs). slot_in_window timeslots (fst (snd e)))"


section \<open>Example inputs\<close>

definition mk_slot :: "string \<Rightarrow> int \<Rightarrow> string \<Rightarrow> TimeSlot" where
  "mk_slot d i h = \<lparr>ts_id = i, ts_day = d, start_time = h, end_time = ''''\<rparr>"

definition mk_course :: "int \<Rightarrow> string \<Rightarrow> nat \<Rightarrow> nat \<Rightarrow> nat \<Rightarrow> Course" where
  "mk_course i n w mn mx =
     \<lparr>c_id = i, c_name = n, weekly_hours = w, min_block_duration = mn,
      max_block_duration = mx, required_room_type = ''tronco_comun'', c_professor_id = None\<rparr>"

definition mk_professor :: "int \<Rightarrow> int list \<Rightarrow> Professor" where
  "mk_professor i unavailable =
     \<lparr>p_id = i, p_name = ''P'', availability = unavailable, max_load = 20\<rparr>"

definition mk_assignment :: "int \<Rightarrow> int \<Rightarrow> int \<Rightarrow> ProfessorCourseGroupAssignment" where
  "mk_assignment p c g =
     \<lparr>a_id = 1, a_professor_id = p, a_course_id = c, a_group_id = g,
      professor_asignatura_id = 1\<rparr>"

definition mk_group :: "int \<Rightarrow> Group" where
  "mk_group i = \<lparr>g_id = i, g_name = ''G'', tutor = None\<rparr>"



text \<open>
  Three courses for two groups: group 1 takes course 1 (a language course), group 2 takes
  courses 2 and 3; three professors, each with a room of their own; professor 2, who
  teaches course 3, is unavailable on Tuesday.
\<close>

definition two_days :: "TimeSlot list" where
  "two_days = [mk_slot ''Lunes'' 1017 ''17:00:00'', mk_slot ''Martes'' 2017 ''17:00:00'']"

definition three_courses :: "Course list" where
  "three_courses = [mk_course 1 ''Ingles'' 1 1 1, mk_course 2 ''Redes'' 1 1 1,
                    mk_course 3 ''Bases'' 1 1 1]"

definition three_professors :: "Professor list" where
  "three_professors = [mk_professor 1 [], mk_professor 2 [2017], mk_professor 3 []]"

definition three_assignments :: "ProfessorCourseGroupAssignment list" where
  "three_assignments = [mk_assignment 1 1 1, mk_assignment 3 2 2, mk_assignment 2 3 2]"

definition own_rooms :: "int \<rightharpoonup> int" where
  "own_rooms = [1 \<mapsto> 1, 2 \<mapsto> 2, 3 \<mapsto> 3]"

definition two_groups_index :: SchedulingData where
  "two_groups_index =
     init_SchedulingData three_courses [] two_days three_professors three_assignments own_rooms"










section \<open>Properties of the input index\<close>

lemma fold_upd_notin:
  "k \<notin> key ` set xs \<Longrightarrow> fold (\<lambda>x m. m(key x \<mapsto> f x)) xs m k = m k"
  by (induction xs arbitrary: m) auto

lemma fold_upd_distinct:
  "distinct (map key xs) \<Longrightarrow> x \<in> set xs \<Longrightarrow>
   fold (\<lambda>x m. m(key x \<mapsto> f x)) xs m (key x) = Some (f x)"
proof (induction xs arbitrary: m)
  case Nil
  then show ?case by simp
next
  case (Cons y xs)
  show ?case
  proof (cases "x \<in> set xs")
    case True
    with Cons show ?thesis by (simp del: fun_upd_apply)
  next
    case False
    with Cons.prems have xy: "x = y" by simp
    have "key y \<notin> key ` set xs" using Cons.prems by simp
    then have "fold (\<lambda>x m. m(key x \<mapsto> f x)) xs (m(key y \<mapsto> f y)) (key y)
        = (m(key y \<mapsto> f y)) (key y)"
      by (rule fold_upd_notin)
    then have "fold (\<lambda>x m. m(key x \<mapsto> f x)) xs (m(key y \<mapsto> f y)) (key y) = Some (f y)"
      by simp
    then show ?thesis unfolding xy by (simp del: fun_upd_apply)
  qed
qed

text \<open>
  C10. A professor id that no element of the professors input carries has no entry in
  \<open>professor_available_slots\<close>, and the availability check answers \<open>True\<close> for every
  list of slot ids: such a professor is scheduled with no availability constraint.
\<close>

theorem absent_professor_always_available:
  assumes "prof_id \<notin> p_id ` set profs"
  shows "is_professor_available_at_slots
           (init_SchedulingData cs rs timeslots profs assignments prof_rooms) prof_id slot_ids"
proof -
  have "available_slots_of timeslots profs prof_id = None"
    unfolding available_slots_of_def using assms by (simp add: fold_upd_notin)
  then show ?thesis
    by (simp add: is_professor_available_at_slots_def init_SchedulingData_def)
qed

theorem absent_professor_always_available_witness:
  "(7::int) \<notin> p_id ` set [\<lparr>p_id = 1, p_name = ''Ana'', availability = [1017], max_load = 10\<rparr>]
   \<and> is_professor_available_at_slots
       (init_SchedulingData [] []
          [\<lparr>ts_id = 1017, ts_day = ''Lunes'', start_time = ''17:00:00'', end_time = ''18:00:00''\<rparr>]
          [\<lparr>p_id = 1, p_name = ''Ana'', availability = [1017], max_load = 10\<rparr>] [] Map.empty)
       7 [1017, 999]"
proof -
  have h: "(7::int) \<notin> p_id ` set [\<lparr>p_id = 1, p_name = ''Ana'', availability = [1017], max_load = 10\<rparr>]"
    by simp
  show ?thesis
    using h absent_professor_always_available [OF h] by blast
qed

text \<open>
  C8, as the code has it. The available-slot set of a professor of the input is the set of
  the ids of ALL input timeslots minus the professor's unavailability list; the window
  \<open>[17:00, 22:00)\<close> plays no part in it. On the valid slot ids the two sets agree.
\<close>

theorem professor_available_slots_all_ids:
  assumes "distinct (map p_id profs)" and "p \<in> set profs"
  shows "\<exists>av. professor_available_slots
               (init_SchedulingData cs rs timeslots profs assignments prof_rooms) (p_id p) = Some av
           \<and> av = ts_id ` set timeslots - set (availability p)
           \<and> av \<inter> ts_id ` set (valid_slots
                 (init_SchedulingData cs rs timeslots profs assignments prof_rooms))
               = ts_id ` set (valid_slots
                 (init_SchedulingData cs rs timeslots profs assignments prof_rooms))
                 - set (availability p)"
proof -
  have "available_slots_of timeslots profs (p_id p)
        = Some (set (map ts_id timeslots) - set (availability p))"
    unfolding available_slots_of_def using assms by (rule fold_upd_distinct)
  then show ?thesis
    by (auto simp: init_SchedulingData_def)
qed

theorem professor_available_slots_all_ids_witness:
  "distinct (map p_id [\<lparr>p_id = 1, p_name = ''Ana'', availability = [1017], max_load = 10\<rparr>])
   \<and> \<lparr>p_id = 1, p_name = ''Ana'', availability = [1017], max_load = 10\<rparr>
       \<in> set [\<lparr>p_id = 1, p_name = ''Ana'', availability = [1017], max_load = 10\<rparr>]
   \<and> (\<exists>av. professor_available_slots
         (init_SchedulingData [] []
            [\<lparr>ts_id = 1017, ts_day = ''Lunes'', start_time = ''17:00:00'', end_time = ''18:00:00''\<rparr>,
             \<lparr>ts_id = 1018, ts_day = ''Lunes'', start_time = ''18:00:00'', end_time = ''19:00:00''\<rparr>]
            [\<lparr>p_id = 1, p_name = ''Ana'', availability = [1017], max_load = 10\<rparr>] [] Map.empty) 1
         = Some av \<and> av = {1018})"
proof -
  have d: "distinct (map p_id [\<lparr>p_id = 1, p_name = ''Ana'', availability = [1017], max_load = 10\<rparr>])"
    by simp
  have m: "\<lparr>p_id = 1, p_name = ''Ana'', availability = [1017], max_load = 10\<rparr>
       \<in> set [\<lparr>p_id = 1, p_name = ''Ana'', availability = [1017], max_load = 10\<rparr>]"
    by simp
  show ?thesis
    using d m professor_available_slots_all_ids [OF d m, of "[]" "[]"
        "[\<lparr>ts_id = 1017, ts_day = ''Lunes'', start_time = ''17:00:00'', end_time = ''18:00:00''\<rparr>,
          \<lparr>ts_id = 1018, ts_day = ''Lunes'', start_time = ''18:00:00'', end_time = ''19:00:00''\<rparr>]"
        "[]" Map.empty]
    by auto
qed

text \<open>
  C8 as stated fails: a timeslot at 08:00 is not a valid slot, yet its id is in the
  available-slot set of a professor with no unavailability.
\<close>

theorem professor_available_slots_counterexample:
  "professor_available_slots
     (init_SchedulingData [] []
        [\<lparr>ts_id = 1008, ts_day = ''Lunes'', start_time = ''08:00:00'', end_time = ''09:00:00''\<rparr>]
        [\<lparr>p_id = 1, p_name = ''Ana'', availability = [], max_load = 10\<rparr>] [] Map.empty) 1
   \<noteq> Some (ts_id ` set (filter in_window
        [\<lparr>ts_id = 1008, ts_day = ''Lunes'', start_time = ''08:00:00'', end_time = ''09:00:00''\<rparr>])
      - set (availability \<lparr>p_id = 1, p_name = ''Ana'', availability = [], max_load = 10\<rparr>))"
  by (simp add: init_SchedulingData_def available_slots_of_def in_window_def)

section \<open>Properties of the block decomposer\<close>

text \<open>
  With \<open>0 < min \<le> max\<close> the loop returns the greedy partition: \<open>max\<close> as often as it
  fits, then the remainder if there is one.
\<close>

lemma blocks_loop_closed:
  assumes "0 < mn" "mn \<le> mx"
  shows "blocks_loop r mn mx acc
         = Some (acc @ replicate (r div mx) mx @ (if r mod mx = 0 then [] else [r mod mx]))"
proof (induction r arbitrary: acc rule: less_induct)
  case (less r)
  show ?case
  proof (cases "r = 0")
    case True
    then show ?thesis by (subst blocks_loop.simps) simp
  next
    case False
    have mx: "0 < mx" using assms by simp
    show ?thesis
    proof (cases "r < mx")
      case True
      then have "blocks_loop r mn mx acc = blocks_loop 0 mn mx (acc @ [r])"
        using False assms by (subst blocks_loop.simps) (auto simp: Let_def min_def)
      also have "\<dots> = Some (acc @ [r])" by (subst blocks_loop.simps) simp
      finally show ?thesis using True False by simp
    next
      case ge: False
      then have "blocks_loop r mn mx acc = blocks_loop (r - mx) mn mx (acc @ [mx])"
        using False assms by (subst blocks_loop.simps) (auto simp: Let_def min_def)
      also have "\<dots> = Some ((acc @ [mx]) @ replicate ((r - mx) div mx) mx
                     @ (if (r - mx) mod mx = 0 then [] else [(r - mx) mod mx]))"
        using less.IH [of "r - mx" "acc @ [mx]"] mx False by simp
      finally have step: "blocks_loop r mn mx acc
          = Some ((acc @ [mx]) @ replicate ((r - mx) div mx) mx
                   @ (if (r - mx) mod mx = 0 then [] else [(r - mx) mod mx]))" .
      have d: "r div mx = Suc ((r - mx) div mx)" using ge mx by (simp add: le_div_geq)
      have m: "r mod mx = (r - mx) mod mx" using ge by (simp add: le_mod_geq)
      show ?thesis unfolding step d m by simp
    qed
  qed
qed

text \<open>
  C3, as the code has it. For a course with positive hours and \<open>0 < min \<le> max\<close> the
  decomposer returns a list that sums to \<open>weekly_hours\<close>, every element of which is
  positive and at most \<open>max_block_duration\<close>; every element is at least
  \<open>min_block_duration\<close> when the remainder of \<open>weekly_hours\<close> by \<open>max_block_duration\<close>
  is 0 or at least \<open>min_block_duration\<close>; and \<open>weekly_hours = max_block_duration\<close>
  gives exactly one block.
\<close>

theorem calculate_course_blocks_partition:
  assumes "0 < weekly_hours c" and "0 < min_block_duration c"
    and "min_block_duration c \<le> max_block_duration c"
  shows "\<exists>bs. calculate_course_blocks c = Some bs
           \<and> sum_list bs = weekly_hours c
           \<and> list_all (\<lambda>b. 0 < b \<and> b \<le> max_block_duration c) bs
           \<and> (weekly_hours c mod max_block_duration c = 0
                 \<or> min_block_duration c \<le> weekly_hours c mod max_block_duration c
               \<longrightarrow> list_all (\<lambda>b. min_block_duration c \<le> b) bs)
           \<and> (weekly_hours c = max_block_duration c \<longrightarrow> bs = [max_block_duration c])"
proof -
  let ?w = "weekly_hours c" and ?mn = "min_block_duration c" and ?mx = "max_block_duration c"
  let ?bs = "replicate (?w div ?mx) ?mx @ (if ?w mod ?mx = 0 then [] else [?w mod ?mx])"
  have mx: "0 < ?mx" using assms by simp
  have eq: "calculate_course_blocks c = Some ?bs"
    unfolding calculate_course_blocks_def using blocks_loop_closed [OF assms(2,3), of ?w "[]"]
    by simp
  have "?w div ?mx * ?mx + ?w mod ?mx = ?w"
    by simp
  then have s: "sum_list ?bs = ?w"
    by (auto simp: sum_list_replicate)
  have b: "list_all (\<lambda>b. 0 < b \<and> b \<le> ?mx) ?bs"
    using mx by (auto simp: list_all_iff intro: less_imp_le)
  have l: "?w mod ?mx = 0 \<or> ?mn \<le> ?w mod ?mx \<Longrightarrow> list_all (\<lambda>b. ?mn \<le> b) ?bs"
    using assms(3) by (auto simp: list_all_iff)
  have o: "?w = ?mx \<Longrightarrow> ?bs = [?mx]"
    using mx by simp
  show ?thesis
    unfolding eq using s b l o by blast
qed

theorem calculate_course_blocks_partition_witness:
  "(0 < weekly_hours \<lparr>c_id = 1, c_name = ''ADS'', weekly_hours = 5, min_block_duration = 2,
        max_block_duration = 3, required_room_type = ''tronco_comun'', c_professor_id = None\<rparr>)
   \<and> calculate_course_blocks \<lparr>c_id = 1, c_name = ''ADS'', weekly_hours = 5,
        min_block_duration = 2, max_block_duration = 3, required_room_type = ''tronco_comun'',
        c_professor_id = None\<rparr> = Some [3, 2]"
proof -
  let ?c = "\<lparr>c_id = 1, c_name = ''ADS'', weekly_hours = 5, min_block_duration = 2,
        max_block_duration = 3, required_room_type = ''tronco_comun'', c_professor_id = None\<rparr>"
  have h1: "0 < weekly_hours ?c" and h2: "0 < min_block_duration ?c"
    and h3: "min_block_duration ?c \<le> max_block_duration ?c"
    by simp_all
  from calculate_course_blocks_partition [OF h1 h2 h3]
  obtain bs where bs: "calculate_course_blocks ?c = Some bs" by blast
  have "calculate_course_blocks ?c = Some [3, 2]"
    by (simp add: calculate_course_blocks_def blocks_loop.simps)
  with h1 bs show ?thesis by simp
qed

text \<open>
  C3 as stated fails: 4 weekly hours with blocks of 2 to 3 hours decompose to \<open>[3, 1]\<close>,
  and the last block is shorter than \<open>min_block_duration\<close>.
\<close>

theorem calculate_course_blocks_counterexample:
  "calculate_course_blocks \<lparr>c_id = 1, c_name = ''ADS'', weekly_hours = 4,
       min_block_duration = 2, max_block_duration = 3, required_room_type = ''tronco_comun'',
       c_professor_id = None\<rparr> = Some [3, 1]
   \<and> \<not> list_all (\<lambda>b. min_block_duration \<lparr>c_id = 1, c_name = ''ADS'', weekly_hours = 4,
       min_block_duration = 2, max_block_duration = 3, required_room_type = ''tronco_comun'',
       c_professor_id = None\<rparr> \<le> b) [3, 1]"
  by (simp add: calculate_course_blocks_def blocks_loop.simps)

section \<open>Properties of the tracker\<close>

lemma fold_upd_apply_slots:
  "fold (\<lambda>slot_id m. m(slot_id \<mapsto> v)) slot_ids m x
   = (if x \<in> set slot_ids then Some v else m x)"
  by (induction slot_ids arbitrary: m) auto

lemma fold_del_apply_slots:
  "fold (\<lambda>slot_id m. m(slot_id := None)) slot_ids m x
   = (if x \<in> set slot_ids then None else m x)"
  by (induction slot_ids arbitrary: m) auto

lemma fold_del_upd_slots:
  assumes "list_all (\<lambda>slot_id. m slot_id = None) slot_ids"
  shows "fold (\<lambda>slot_id m. m(slot_id := None)) slot_ids
           (fold (\<lambda>slot_id m. m(slot_id \<mapsto> v)) slot_ids m) = m"
proof
  fix x
  show "fold (\<lambda>slot_id m. m(slot_id := None)) slot_ids
           (fold (\<lambda>slot_id m. m(slot_id \<mapsto> v)) slot_ids m) x = m x"
    using assms by (auto simp: fold_del_apply_slots fold_upd_apply_slots list_all_iff)
qed

text \<open>
  C4, as the code has it. When the slot ids are free for the professor and for the group
  (the two checks every caller makes before \<open>assign\<close>), \<open>assign\<close> followed by
  \<open>unassign\<close> gives back every slot map; the tracker is the prior one except that a
  professor or group that had no inner dictionary now has an empty one, and it is the
  prior tracker itself when both had one.
\<close>

theorem assign_unassign_restores:
  assumes "can_assign_professor t prof_id slot_ids" and "can_assign_group t group_id slot_ids"
  shows "unassign (assign t prof_id group_id slot_ids course_id) prof_id group_id slot_ids
         = t\<lparr>prof_schedule := (prof_schedule t)(prof_id \<mapsto> or_empty (prof_schedule t prof_id)),
              group_schedule :=
                (group_schedule t)(group_id \<mapsto> or_empty (group_schedule t group_id))\<rparr>
       \<and> (prof_schedule t prof_id \<noteq> None \<and> group_schedule t group_id \<noteq> None \<longrightarrow>
          unassign (assign t prof_id group_id slot_ids course_id) prof_id group_id slot_ids = t)"
proof -
  have p: "list_all (\<lambda>slot_id. or_empty (prof_schedule t prof_id) slot_id = None) slot_ids"
    using assms(1)
    by (auto simp: can_assign_professor_def or_empty_def list_all_iff split: option.splits)
  have g: "list_all (\<lambda>slot_id. or_empty (group_schedule t group_id) slot_id = None) slot_ids"
    using assms(2)
    by (auto simp: can_assign_group_def or_empty_def list_all_iff split: option.splits)
  have eq: "unassign (assign t prof_id group_id slot_ids course_id) prof_id group_id slot_ids
         = t\<lparr>prof_schedule := (prof_schedule t)(prof_id \<mapsto> or_empty (prof_schedule t prof_id)),
              group_schedule :=
                (group_schedule t)(group_id \<mapsto> or_empty (group_schedule t group_id))\<rparr>"
    using fold_del_upd_slots [OF p, of group_id] fold_del_upd_slots [OF g, of course_id]
    by (simp add: unassign_def assign_def Let_def)
  moreover have "prof_schedule t prof_id \<noteq> None \<and> group_schedule t group_id \<noteq> None \<Longrightarrow>
     t\<lparr>prof_schedule := (prof_schedule t)(prof_id \<mapsto> or_empty (prof_schedule t prof_id)),
       group_schedule :=
         (group_schedule t)(group_id \<mapsto> or_empty (group_schedule t group_id))\<rparr> = t"
    by (auto simp: or_empty_def fun_upd_idem)
  ultimately show ?thesis by simp
qed

theorem assign_unassign_restores_witness:
  "can_assign_professor (assign init_GroupScheduleTracker 1 1 [1017] 7) 1 [2017]
   \<and> can_assign_group (assign init_GroupScheduleTracker 1 1 [1017] 7) 1 [2017]
   \<and> unassign (assign (assign init_GroupScheduleTracker 1 1 [1017] 7) 1 1 [2017] 7) 1 1 [2017]
     = assign init_GroupScheduleTracker 1 1 [1017] 7"
proof -
  let ?t = "assign init_GroupScheduleTracker 1 1 [1017] 7"
  have p: "can_assign_professor ?t 1 [2017]"
    by (simp add: can_assign_professor_def assign_def init_GroupScheduleTracker_def or_empty_def)
  have g: "can_assign_group ?t 1 [2017]"
    by (simp add: can_assign_group_def assign_def init_GroupScheduleTracker_def or_empty_def)
  have k: "prof_schedule ?t 1 \<noteq> None \<and> group_schedule ?t 1 \<noteq> None"
    by (simp add: assign_def)
  show ?thesis
    using p g k assign_unassign_restores [OF p g, of 7] by blast
qed

text \<open>
  C4 as stated fails: after one \<open>assign\<close>, a block of a professor and a group new to the
  tracker is assigned and unassigned; both keep an empty inner dictionary, so the tracker
  is not the prior one.
\<close>

theorem assign_unassign_counterexample:
  "unassign (assign (assign init_GroupScheduleTracker 1 1 [1017] 7) 2 2 [2017] 7) 2 2 [2017]
   \<noteq> assign init_GroupScheduleTracker 1 1 [1017] 7"
proof
  assume "unassign (assign (assign init_GroupScheduleTracker 1 1 [1017] 7) 2 2 [2017] 7)
            2 2 [2017] = assign init_GroupScheduleTracker 1 1 [1017] 7"
  then have "prof_schedule
               (unassign (assign (assign init_GroupScheduleTracker 1 1 [1017] 7) 2 2 [2017] 7)
                  2 2 [2017]) 2
             = prof_schedule (assign init_GroupScheduleTracker 1 1 [1017] 7) 2"
    by simp
  then show False
    by (simp add: unassign_def assign_def init_GroupScheduleTracker_def or_empty_def)
qed

section \<open>Loops, results and day sequences\<close>

lemma first_success_inv:
  assumes "first_success step xs st = Ok (b, st')" and "I st"
    and "\<And>x st b st'. x \<in> set xs \<Longrightarrow> I st \<Longrightarrow> step x st = Ok (b, st') \<Longrightarrow> I st'"
  shows "I st'"
  using assms
proof (induction xs arbitrary: st)
  case Nil
  then show ?case by simp
next
  case (Cons x xs)
  from Cons.prems(1) obtain f st1 where s1: "step x st = Ok (f, st1)"
    by (auto split: result.splits)
  have i1: "I st1" using Cons.prems(3) [OF _ Cons.prems(2) s1] by simp
  show ?case
  proof (cases f)
    case True
    with Cons.prems(1) s1 have "st' = st1" by simp
    with i1 show ?thesis by simp
  next
    case False
    with Cons.prems(1) s1 have fs: "first_success step xs st1 = Ok (b, st')" by simp
    show ?thesis
    proof (rule Cons.IH [OF fs i1])
      fix y s c s'
      assume "y \<in> set xs" "I s" "step y s = Ok (c, s')"
      then show "I s'" using Cons.prems(3) [of y s c s'] by simp
    qed
  qed
qed


lemma for_each_inv:
  assumes "for_each step xs st = Ok st'" and "I st"
    and "\<And>x st st'. x \<in> set xs \<Longrightarrow> I st \<Longrightarrow> step x st = Ok st' \<Longrightarrow> I st'"
  shows "I st'"
  using assms
proof (induction xs arbitrary: st)
  case Nil
  then show ?case by simp
next
  case (Cons x xs)
  from Cons.prems(1) obtain st1 where s1: "step x st = Ok st1"
    by (auto split: result.splits)
  have i1: "I st1" using Cons.prems(3) [OF _ Cons.prems(2) s1] by simp
  from Cons.prems(1) s1 have fe: "for_each step xs st1 = Ok st'" by simp
  show ?case
  proof (rule Cons.IH [OF fe i1])
    fix y s s'
    assume "y \<in> set xs" "I s" "step y s = Ok s'"
    then show "I s'" using Cons.prems(3) [of y s s'] by simp
  qed
qed







section \<open>Association lists, the index and the commit of a language course\<close>

lemma set_update_subset:
  "set (AList.update k v al) \<subseteq> insert (k, v) (set al)"
  by (induction al) auto

lemma set_delete_subset:
  "set (AList.delete k al) \<subseteq> set al"
  by (induction al) auto

lemma add_slot_to_day_inv:
  assumes "\<forall>(d, l) \<in> set m. \<forall>sl \<in> set l. ts_day sl = d \<and> sl \<in> S" and "s \<in> S"
  shows "\<forall>(d, l) \<in> set (add_slot_to_day s m). \<forall>sl \<in> set l. ts_day sl = d \<and> sl \<in> S"
proof (cases "map_of m (ts_day s)")
  case None
  then show ?thesis using assms by (auto simp: add_slot_to_day_def)
next
  case (Some l)
  then have "(ts_day s, l) \<in> set m" by (rule map_of_SomeD)
  then have l: "\<forall>sl \<in> set l. ts_day sl = ts_day s \<and> sl \<in> S" using assms(1) by auto
  have "set (AList.update (ts_day s) (l @ [s]) m) \<subseteq> insert (ts_day s, l @ [s]) (set m)"
    by (rule set_update_subset)
  then show ?thesis using Some assms l by (fastforce simp: add_slot_to_day_def)
qed

lemma fold_add_slot_to_day_inv:
  assumes "\<forall>(d, l) \<in> set m. \<forall>sl \<in> set l. ts_day sl = d \<and> sl \<in> S" and "set vs \<subseteq> S"
  shows "\<forall>(d, l) \<in> set (fold add_slot_to_day vs m). \<forall>sl \<in> set l. ts_day sl = d \<and> sl \<in> S"
  using assms
proof (induction vs arbitrary: m)
  case Nil
  then show ?case by simp
next
  case (Cons v vs)
  have v: "v \<in> S" using Cons.prems(2) by simp
  have vs: "set vs \<subseteq> S" using Cons.prems(2) by simp
  have "\<forall>(d, l) \<in> set (add_slot_to_day v m). \<forall>sl \<in> set l. ts_day sl = d \<and> sl \<in> S"
    by (rule add_slot_to_day_inv [OF Cons.prems(1) v])
  from Cons.IH [OF this vs] show ?case by simp
qed

lemma init_slots_by_day_ok:
  "slots_by_day_ok (init_SchedulingData cs rs timeslots profs assignments prof_rooms)"
proof -
  have "\<forall>(d, l) \<in> set (fold add_slot_to_day (filter in_window timeslots) []).
          \<forall>sl \<in> set l. ts_day sl = d \<and> sl \<in> set (filter in_window timeslots)"
    by (rule fold_add_slot_to_day_inv) auto
  then show ?thesis
    by (fastforce simp: slots_by_day_ok_def init_SchedulingData_def group_slots_by_day_def)
qed

lemma english_positions_props:
  assumes "english_positions chk data s p g r hour seq = Ok (Some ps)"
  shows "map fst ps = seq
         \<and> (\<forall>(d, sl) \<in> set ps. \<exists>l. map_of (slots_by_day data) d = Some l \<and> sl \<in> set l
                \<and> start_time sl = hour)"
  using assms
proof (induction seq arbitrary: ps)
  case Nil
  then show ?case by simp
next
  case (Cons day rest)
  from Cons.prems obtain l sl ps' where l: "map_of (slots_by_day data) day = Some l"
    and sl: "slot_at_hour l hour = Some sl"
    and r: "english_positions chk data s p g r hour rest = Ok (Some ps')"
    and ps: "ps = (day, sl) # ps'"
    by (auto split: option.splits if_splits result.splits)
  from sl have "sl \<in> set l \<and> start_time sl = hour"
    by (auto simp: slot_at_hour_def find_Some_iff)
  then show ?case using Cons.IH [OF r] l ps by auto
qed



section \<open>The language-course placer\<close>













section \<open>Displacement and language-course blocks\<close>


lemma relocate_all_Nil: "relocate_all rt data [] st = Ok (True, st)"
  by (simp add: relocate_all_def)





section \<open>Relocation is transactional\<close>










lemma add_hour_block_from:
  assumes "\<forall>b \<in> set blocks. block_from sched b" and "e \<in> set sched"
  shows "\<forall>b \<in> set (add_hour wanted e blocks). block_from sched b"
proof -
  obtain kg kc kb kj sid room cid where e: "e = ((kg, kc, kb, kj), (sid, room, cid))"
    by (metis prod.collapse)
  let ?h = "\<lparr> h_hour_id = (kg, kc, kb, kj), h_slot_id = sid, h_room_id = room \<rparr>"
  show ?thesis
  proof (cases "sid \<in> set wanted")
    case False
    then show ?thesis using assms(1) by (simp add: add_hour_def e)
  next
    case True
    show ?thesis
    proof (cases "map_of blocks (kg, kc, kb)")
      case None
      have "block_from sched ((kg, kc, kb), (cid, [?h]))"
        using assms(2) e by (auto simp: block_from_def)
      then show ?thesis using True None assms(1) by (auto simp: add_hour_def e)
    next
      case (Some old)
      obtain cid' hs where old: "old = (cid', hs)" by (cases old)
      from Some old have "((kg, kc, kb), (cid', hs)) \<in> set blocks" by (auto dest: map_of_SomeD)
      with assms(1) have b: "block_from sched ((kg, kc, kb), (cid', hs))" by blast
      have n: "block_from sched ((kg, kc, kb), (cid', hs @ [?h]))"
        using b assms(2) e by (auto simp: block_from_def)
      have "set (AList.update (kg, kc, kb) (cid', hs @ [?h]) blocks)
              \<subseteq> insert ((kg, kc, kb), (cid', hs @ [?h])) (set blocks)"
        by (rule set_update_subset)
      with n assms(1) have "\<forall>b \<in> set (AList.update (kg, kc, kb) (cid', hs @ [?h]) blocks).
          block_from sched b" by blast
      then show ?thesis using True Some old by (simp add: add_hour_def e)
    qed
  qed
qed

lemma fold_add_hour_block_from:
  assumes "\<forall>b \<in> set blocks. block_from sched b" and "set es \<subseteq> set sched"
  shows "\<forall>b \<in> set (fold (add_hour wanted) es blocks). block_from sched b"
  using assms
proof (induction es arbitrary: blocks)
  case Nil
  then show ?case by simp
next
  case (Cons e es)
  have e: "e \<in> set sched" and es: "set es \<subseteq> set sched" using Cons.prems(2) by auto
  from Cons.IH [OF add_hour_block_from [OF Cons.prems(1) e] es] show ?case by simp
qed

lemma conflict_is_block:
  assumes "c \<in> set (get_conflicting_blocks rt wanted gid scheds data)"
  shows "\<exists>sched bk. (cf_group_id c, sched) \<in> set scheds
           \<and> block_from sched (bk, cf_course_id c, cf_hours c)
           \<and> cf_course c = courses data (cf_course_id c)"
proof -
  from assms obtain og sched b where m: "(og, sched) \<in> set scheds"
    and b: "b \<in> set (fold (add_hour wanted) sched [])" and c: "c = make_conflict rt data og b"
    by (auto simp: get_conflicting_blocks_def)
  have "\<forall>b \<in> set (fold (add_hour wanted) sched []). block_from sched b"
    by (rule fold_add_hour_block_from) auto
  with b have bf: "block_from sched b" by blast
  obtain bk cid hs where bb: "b = (bk, cid, hs)" by (cases b)
  have "cf_group_id c = og" "cf_course_id c = cid" "cf_hours c = hs"
    "cf_course c = courses data (cf_course_id c)"
    using c bb by (simp_all add: make_conflict_def)
  with bf m bb show ?thesis by blast
qed






lemma case_list_hd:
  "xs \<noteq> [] \<Longrightarrow> (case xs of [] \<Rightarrow> a | h # t \<Rightarrow> f h t) = f (hd xs) (tl xs)"
  by (cases xs) auto




section \<open>The schedule invariant\<close>

lemma first_success_rule:
  assumes "first_success step xs st = Ok (b, st')" and "I st"
    and "\<And>x st b st'. x \<in> set xs \<Longrightarrow> I st \<Longrightarrow> step x st = Ok (b, st') \<Longrightarrow>
           (if b then Q st' else I st')"
  shows "if b then Q st' else I st'"
  using assms
proof (induction xs arbitrary: st)
  case Nil
  then show ?case by auto
next
  case (Cons x xs)
  from Cons.prems(1) obtain f st1 where s1: "step x st = Ok (f, st1)"
    by (auto split: result.splits)
  have i1: "if f then Q st1 else I st1" using Cons.prems(3) [OF _ Cons.prems(2) s1] by simp
  show ?case
  proof (cases f)
    case True
    with Cons.prems(1) s1 have "st' = st1" "b" by auto
    with i1 True show ?thesis by simp
  next
    case False
    with Cons.prems(1) s1 have fs: "first_success step xs st1 = Ok (b, st')" by simp
    from False i1 have i: "I st1" by simp
    show ?thesis
    proof (rule Cons.IH [OF fs i])
      fix y s c s'
      assume "y \<in> set xs" "I s" "step y s = Ok (c, s')"
      then show "if c then Q s' else I s'" using Cons.prems(3) [of y s c s'] by simp
    qed
  qed
qed

lemma entries_all_sched_set:
  assumes "sched_set scheds g k v = Ok scheds'" and "entries_all P scheds" and "P g (k, v)"
  shows "entries_all P scheds'"
proof -
  from assms(1) obtain sched where m: "map_of scheds g = Some sched"
    and s': "scheds' = AList.update g (AList.update k v sched) scheds"
    by (auto simp: sched_set_def split: option.splits)
  from m have i: "(g, sched) \<in> set scheds" by (rule map_of_SomeD)
  have a: "set scheds' \<subseteq> insert (g, AList.update k v sched) (set scheds)"
    unfolding s' by (rule set_update_subset)
  have b: "set (AList.update k v sched) \<subseteq> insert (k, v) (set sched)"
    by (rule set_update_subset)
  show ?thesis unfolding entries_all_def
  proof (intro ballI)
    fix gs e assume gs: "gs \<in> set scheds'" and e: "e \<in> set (snd gs)"
    show "P (fst gs) e"
    proof (cases "gs \<in> set scheds")
      case True
      with assms(2) e show ?thesis by (auto simp: entries_all_def)
    next
      case False
      with gs a have g: "gs = (g, AList.update k v sched)" by auto
      with e b have "e = (k, v) \<or> e \<in> set sched" by auto
      moreover have "\<forall>e \<in> set sched. P g e" using i assms(2) by (fastforce simp: entries_all_def)
      ultimately have "P g e" using assms(3) by blast
      with g show ?thesis by simp
    qed
  qed
qed

lemma entries_all_write_hours:
  assumes "write_hours scheds g bk j ids room cid = Ok scheds'" and "entries_all P scheds"
    and "\<forall>i < length ids. P g ((fst bk, fst (snd bk), snd (snd bk), j + i), (ids ! i, room, cid))"
  shows "entries_all P scheds'"
  using assms
proof (induction ids arbitrary: scheds j)
  case Nil
  then show ?case by simp
next
  case (Cons sid ids)
  from Cons.prems(1) obtain s1 where
    s1: "sched_set scheds g (fst bk, fst (snd bk), snd (snd bk), j) (sid, room, cid) = Ok s1"
    and r: "write_hours s1 g bk (Suc j) ids room cid = Ok scheds'"
    by (auto split: result.splits)
  have p0: "P g ((fst bk, fst (snd bk), snd (snd bk), j), (sid, room, cid))"
    using Cons.prems(3) by fastforce
  have e1: "entries_all P s1" by (rule entries_all_sched_set [OF s1 Cons.prems(2) p0])
  have "\<forall>i < length ids. P g ((fst bk, fst (snd bk), snd (snd bk), Suc j + i), (ids ! i, room, cid))"
  proof (intro allI impI)
    fix i assume "i < length ids"
    then have "Suc i < length (sid # ids)" by simp
    with Cons.prems(3) have "P g ((fst bk, fst (snd bk), snd (snd bk), j + Suc i),
        ((sid # ids) ! Suc i, room, cid))" by blast
    then show "P g ((fst bk, fst (snd bk), snd (snd bk), Suc j + i), (ids ! i, room, cid))"
      by simp
  qed
  from Cons.IH [OF r e1 this] show ?case .
qed

lemma entries_all_delete:
  assumes "entries_all P scheds" and "map_of scheds g = Some sched"
  shows "entries_all P (AList.update g (fold (\<lambda>h m. AList.delete (k h) m) hs sched) scheds)"
proof -
  have sub: "set (fold (\<lambda>h m. AList.delete (k h) m) hs sched) \<subseteq> set sched"
  proof (induction hs arbitrary: sched)
    case Nil
    then show ?case by simp
  next
    case (Cons h hs)
    have "set (fold (\<lambda>h m. AList.delete (k h) m) hs (AList.delete (k h) sched))
            \<subseteq> set (AList.delete (k h) sched)" by (rule Cons.IH)
    also have "\<dots> \<subseteq> set sched" by (rule set_delete_subset)
    finally show ?case by simp
  qed
  from assms(2) have i: "(g, sched) \<in> set scheds" by (rule map_of_SomeD)
  have a: "set (AList.update g (fold (\<lambda>h m. AList.delete (k h) m) hs sched) scheds)
      \<subseteq> insert (g, fold (\<lambda>h m. AList.delete (k h) m) hs sched) (set scheds)"
    by (rule set_update_subset)
  show ?thesis unfolding entries_all_def
  proof (intro ballI)
    fix gs e
    assume gs: "gs \<in> set (AList.update g (fold (\<lambda>h m. AList.delete (k h) m) hs sched) scheds)"
      and e: "e \<in> set (snd gs)"
    show "P (fst gs) e"
    proof (cases "gs \<in> set scheds")
      case True
      with assms(1) e show ?thesis by (auto simp: entries_all_def)
    next
      case False
      with gs a have g: "gs = (g, fold (\<lambda>h m. AList.delete (k h) m) hs sched)" by auto
      with e sub have "e \<in> set sched" by auto
      with i assms(1) have "P g e" by (fastforce simp: entries_all_def)
      with g show ?thesis by simp
    qed
  qed
qed

lemma entries_all_restore:
  assumes "for_each (\<lambda>h scheds. sched_set scheds g (k h) (v h)) hs scheds = Ok scheds'"
    and "entries_all P scheds" and "\<forall>h \<in> set hs. P g (k h, v h)"
  shows "entries_all P scheds'"
proof -
  have "entries_all P scheds'"
  proof (rule for_each_inv [where I = "entries_all P", OF assms(1,2)])
    fix h s1 s2
    assume "h \<in> set hs" "entries_all P s1" "sched_set s1 g (k h) (v h) = Ok s2"
    then show "entries_all P s2" using assms(3) entries_all_sched_set by blast
  qed
  then show ?thesis .
qed

lemma fixed_hour_assign [simp]:
  "course_fixed_hour (assign t p g ids c) = course_fixed_hour t"
  by (simp add: assign_def)

lemma fixed_hour_unassign [simp]:
  "course_fixed_hour (unassign t p g ids) = course_fixed_hour t"
  by (simp add: unassign_def Let_def split: option.splits)

lemma fixed_hour_add_day [simp]:
  "course_fixed_hour (add_day_for_course t g c d) = course_fixed_hour t"
  by (simp add: add_day_for_course_def)

lemma fixed_hour_remove_day [simp]:
  "course_fixed_hour (remove_day_for_course t g c d) = course_fixed_hour t"
  by (simp add: remove_day_for_course_def split: option.splits)

lemma entry_ok_mono:
  assumes "entry_ok rt data fh g e" and "\<And>k h. fh k = Some h \<Longrightarrow> h \<noteq> [] \<Longrightarrow> fh' k = Some h"
  shows "entry_ok rt data fh' g e"
proof -
  obtain kg kc kb kj sid room cid where e: "e = ((kg, kc, kb, kj), (sid, room, cid))"
    by (metis prod.collapse)
  show ?thesis using assms unfolding e entry_ok_def by (simp; blast)
qed

lemma entries_all_mono:
  assumes "entries_all P scheds" and "\<And>g e. P g e \<Longrightarrow> Q g e"
  shows "entries_all Q scheds"
  using assms by (auto simp: entries_all_def)

lemma in_window_nonempty: "in_window sl \<Longrightarrow> start_time sl \<noteq> []"
  by (auto simp: in_window_def)

lemma check_window_ok:
  assumes "check_window rt data s g p r is_en fixed day day_slots d idx = Ok (Some pos)"
    and "set day_slots \<subseteq> set (valid_slots data)"
  shows "position_ok data is_en fixed pos"
proof -
  let ?c = "take d (drop idx day_slots)"
  have sub: "set ?c \<subseteq> set (valid_slots data)"
    using assms(2) by (meson set_take_subset set_drop_subset subset_trans)
  from assms(1) obtain s0 rest where c: "?c = s0 # rest"
    and pos: "pos = \<lparr> pos_day = day, pos_start_idx = idx, pos_slots = ?c,
                     pos_slot_ids = map ts_id ?c, pos_first_hour = start_time s0,
                     pos_room_id = r, pos_prof_id = p \<rparr>"
    and fx: "\<not> (is_en \<and> truthy_str fixed \<and> Some (start_time s0) \<noteq> fixed)"
    by (auto simp: check_window_def Let_def split: result.splits if_splits list.splits)
  show ?thesis unfolding position_ok_def pos using sub c fx by auto
qed

lemma collect_positions_mem:
  assumes "collect_positions f idxs = Ok ps" and "pos \<in> set ps"
  shows "\<exists>i. f i = Ok (Some pos)"
  using assms
proof (induction idxs arbitrary: ps)
  case Nil
  then show ?case by simp
next
  case (Cons i idxs)
  then show ?case
    by (auto split: result.splits option.splits)
qed

lemma find_positions_ok:
  assumes "find_all_valid_positions rt course g d day data s is_en fixed = Ok ps"
    and "slots_by_day_ok data" and "pos \<in> set ps"
  shows "position_ok data is_en fixed pos"
proof -
  from assms(1,3) obtain p r day_slots where m: "map_of (slots_by_day data) day = Some day_slots"
    and c: "collect_positions (check_window rt data s g p r is_en fixed day day_slots d)
              [0 ..< Suc (length day_slots) - d] = Ok ps"
    by (auto simp: find_all_valid_positions_def split: option.splits if_splits)
  from m have "(day, day_slots) \<in> set (slots_by_day data)" by (rule map_of_SomeD)
  with assms(2) have sub: "set day_slots \<subseteq> set (valid_slots data)"
    by (auto simp: slots_by_day_ok_def)
  from collect_positions_mem [OF c assms(3)] obtain i where
    "check_window rt data s g p r is_en fixed day day_slots d i = Ok (Some pos)" by blast
  from check_window_ok [OF this sub] show ?thesis .
qed

lemma place_block_entries:
  assumes "place_block cid one g bk day pos s = Ok s'" and "entries_all P (all_schedules s)"
    and "\<forall>i < length (pos_slot_ids pos).
           P g ((fst bk, fst (snd bk), snd (snd bk), i), (pos_slot_ids pos ! i, pos_room_id pos, cid))"
  shows "entries_all P (all_schedules s')
       \<and> course_fixed_hour (global_tracker s') = course_fixed_hour (global_tracker s)"
proof -
  from assms(1) obtain scheds where
    w: "write_hours (all_schedules s) g bk 0 (pos_slot_ids pos) (pos_room_id pos) cid = Ok scheds"
    and a: "all_schedules s' = scheds"
    and f: "course_fixed_hour (global_tracker s') = course_fixed_hour (global_tracker s)"
    by (auto simp: place_block_def Let_def split: result.splits)
  have "entries_all P scheds"
    by (rule entries_all_write_hours [OF w assms(2)]) (use assms(3) in simp)
  with a f show ?thesis by simp
qed

lemma new_entries_ok:
  assumes "position_ok data is_en fixed pos" and "index_ok data"
    and "english_course rt data cid \<longrightarrow> fh (g, cid) = Some (pos_first_hour pos)"
  shows "\<forall>i < length (pos_slot_ids pos).
           entry_ok rt data fh g ((kg, cid, kb, i), (pos_slot_ids pos ! i, room, cid))"
proof (intro allI impI)
  fix i assume i: "i < length (pos_slot_ids pos)"
  from assms(1) have ne: "pos_slots pos \<noteq> []"
    and sub: "set (pos_slots pos) \<subseteq> set (valid_slots data)"
    and ids: "pos_slot_ids pos = map ts_id (pos_slots pos)"
    and fh: "pos_first_hour pos = start_time (hd (pos_slots pos))"
    by (auto simp: position_ok_def)
  from i ids have il: "i < length (pos_slots pos)" by simp
  then have v: "pos_slots pos ! i \<in> set (valid_slots data)" using sub by auto
  have id: "pos_slot_ids pos ! i = ts_id (pos_slots pos ! i)" using ids il by simp
  have h0: "hd (pos_slots pos) \<in> set (valid_slots data)" using ne sub by auto
  then have hne: "pos_first_hour pos \<noteq> []"
    using assms(2) fh by (auto simp: index_ok_def in_window_nonempty)
  have z: "i = 0 \<Longrightarrow> pos_slots pos ! i = hd (pos_slots pos)" using ne by (simp add: hd_conv_nth)
  show "entry_ok rt data fh g ((kg, cid, kb, i), (pos_slot_ids pos ! i, room, cid))"
    unfolding entry_ok_def using v id h0 hne z fh assms(3) by auto
qed

lemma commit_position_ok:
  assumes "commit_position course g is_en bn day pos fixed s = Ok (fixed', s')"
    and "sched_ok rt data s" and "index_ok data" and "position_ok data is_en fixed pos"
    and "fixed = (if is_en then course_fixed_hour (global_tracker s) (g, c_id course) else None)"
    and "english_course rt data (c_id course) \<longrightarrow> is_en"
  shows "sched_ok rt data s'
       \<and> fixed' = (if is_en then course_fixed_hour (global_tracker s') (g, c_id course) else None)"
proof -
  let ?fh = "course_fixed_hour (global_tracker s)"
  let ?c = "c_id course"
  let ?set = "is_en \<and> \<not> truthy_str fixed"
  let ?fh' = "if ?set then ?fh((g, ?c) \<mapsto> pos_first_hour pos) else ?fh"
  from assms(1) obtain s1 where
    pb: "place_block ?c (max_block_duration course = 1) g (g, ?c, bn) day pos s = Ok s1"
    and s': "s' = (if ?set
                   then s1\<lparr>global_tracker := set_fixed_hour_for_course (global_tracker s1) g ?c
                                                (pos_first_hour pos)\<rparr>
                   else s1)"
    and f': "fixed' = (if ?set then Some (pos_first_hour pos) else fixed)"
    by (auto simp: commit_position_def split: result.splits if_splits)
  have ext: "\<And>k h. ?fh k = Some h \<Longrightarrow> h \<noteq> [] \<Longrightarrow> ?fh' k = Some h"
    using assms(5) by (auto simp: truthy_str_def)
  have old: "entries_all (entry_ok rt data ?fh') (all_schedules s)"
    by (rule entries_all_mono [OF assms(2) [unfolded sched_ok_def]])
       (rule entry_ok_mono, assumption, rule ext)
  have fx: "english_course rt data ?c \<longrightarrow> ?fh' (g, ?c) = Some (pos_first_hour pos)"
  proof
    assume "english_course rt data ?c"
    with assms(6) have en: is_en by simp
    show "?fh' (g, ?c) = Some (pos_first_hour pos)"
    proof (cases "truthy_str fixed")
      case True
      from assms(4) have "is_en \<and> truthy_str fixed \<longrightarrow> Some (pos_first_hour pos) = fixed"
        unfolding position_ok_def by blast
      with en True have "Some (pos_first_hour pos) = fixed" by blast
      with True en assms(5) show ?thesis by simp
    next
      case False
      with en show ?thesis by simp
    qed
  qed
  have new: "\<forall>i < length (pos_slot_ids pos).
      entry_ok rt data ?fh' g ((g, ?c, bn, i), (pos_slot_ids pos ! i, pos_room_id pos, ?c))"
    by (rule new_entries_ok [where fh = "?fh'" and is_en = is_en and fixed = fixed])
       (rule assms(4), rule assms(3), rule fx)
  from place_block_entries [OF pb old] new
  have e1: "entries_all (entry_ok rt data ?fh') (all_schedules s1)"
    and f1: "course_fixed_hour (global_tracker s1) = ?fh" by simp_all
  have fs: "course_fixed_hour (global_tracker s') = ?fh'"
    unfolding s' using f1 by (auto simp: set_fixed_hour_for_course_def)
  have as: "all_schedules s' = all_schedules s1" unfolding s' by simp
  have "sched_ok rt data s'" unfolding sched_ok_def fs as by (rule e1)
  moreover have "fixed' = (if is_en then course_fixed_hour (global_tracker s') (g, ?c) else None)"
    unfolding f' fs using assms(5) by (auto simp: truthy_str_def split: option.splits)
  ultimately show ?thesis by simp
qed

lemma randbelow_less: "0 < n \<Longrightarrow> fst (randbelow n rng) < n"
  by (cases rng) (auto simp: randbelow_def)

lemma first_success_pres:
  assumes "first_success step xs st = Ok (b, st')" and "I st"
    and "\<And>x st b st'. x \<in> set xs \<Longrightarrow> I st \<Longrightarrow> step x st = Ok (b, st') \<Longrightarrow> I st'"
  shows "I st'"
proof -
  have "if b then I st' else I st'"
    by (rule first_success_rule [where I = I and Q = I, OF assms(1,2)])
       (simp add: assms(3))
  then show ?thesis by simp
qed

lemma relocate_on_day_ok:
  assumes "relocate_on_day rt data course g cid d is_en fixed day (s, rng) = Ok (b, s', rng')"
    and "index_ok data" and "\<not> english_course rt data cid" and "sched_ok rt data s"
  shows "sched_ok rt data s'
       \<and> course_fixed_hour (global_tracker s') = course_fixed_hour (global_tracker s)"
proof (cases b)
  case False
  have "(s', rng') = (s, rng)"
    using assms(1) False
    by (auto simp: relocate_on_day_def split: if_splits result.splits prod.splits)
  with assms(4) show ?thesis by simp
next
  case True
  let ?fh = "course_fixed_hour (global_tracker s)"
  from assms(1) True obtain ps i rng1 n where
    f: "find_all_valid_positions rt course g d day data s is_en fixed = Ok ps"
    and ne: "ps \<noteq> []" and i: "randbelow (length ps) rng = (i, rng1)"
    and pb: "place_block cid (max_block_duration course = 1) g (g, cid, 1000 + n) day (ps ! i) s
             = Ok s'"
    by (auto simp: relocate_on_day_def split: if_splits result.splits prod.splits)
  from ne i randbelow_less [of "length ps" rng] have "i < length ps" by simp
  then have mem: "ps ! i \<in> set ps" by simp
  from assms(2) have sb: "slots_by_day_ok data" by (simp add: index_ok_def)
  have po: "position_ok data is_en fixed (ps ! i)" by (rule find_positions_ok [OF f sb mem])
  have fx: "english_course rt data cid \<longrightarrow> ?fh (g, cid) = Some (pos_first_hour (ps ! i))"
    using assms(3) by simp
  have new: "\<forall>j < length (pos_slot_ids (ps ! i)).
      entry_ok rt data ?fh g ((g, cid, 1000 + n, j),
                              (pos_slot_ids (ps ! i) ! j, pos_room_id (ps ! i), cid))"
    by (rule new_entries_ok [where fh = ?fh and is_en = is_en and fixed = fixed])
       (rule po, rule assms(2), rule fx)
  from place_block_entries [OF pb assms(4) [unfolded sched_ok_def]] new
  have "entries_all (entry_ok rt data ?fh) (all_schedules s')"
    and "course_fixed_hour (global_tracker s') = ?fh" by simp_all
  then show ?thesis by (simp add: sched_ok_def)
qed

lemma try_relocate_block_ok:
  assumes "try_relocate_block rt c data s rng = Ok (b, s', rng')"
    and "index_ok data" and "sched_ok rt data s"
    and "conflict_ok rt data (course_fixed_hour (global_tracker s)) c"
  shows "sched_ok rt data s'
       \<and> course_fixed_hour (global_tracker s') = course_fixed_hour (global_tracker s)"
proof -
  let ?g = "cf_group_id c" and ?cid = "cf_course_id c"
  let ?fh = "course_fixed_hour (global_tracker s)"
  let ?I = "\<lambda>st. sched_ok rt data (fst st) \<and> course_fixed_hour (global_tracker (fst st)) = ?fh"
  from assms(4) have nen: "\<not> english_course rt data ?cid"
    and hs: "\<forall>h \<in> set (cf_hours c).
               entry_ok rt data ?fh ?g (h_hour_id h, (h_slot_id h, h_room_id h, ?cid))"
    by (simp_all add: conflict_ok_def)
  show ?thesis
  proof (cases "cf_course c")
    case None
    with assms(1,3) show ?thesis by (auto simp: try_relocate_block_def Let_def)
  next
    case (Some course)
    note crs = Some
    show ?thesis
    proof (cases "get_professor_for_group_course data ?g ?cid")
      case None
      with assms(1,3) crs show ?thesis by (auto simp: try_relocate_block_def Let_def)
    next
      case (Some p)
      note prof = Some
      show ?thesis
      proof (cases "p = 0")
        case True
        with assms(1,3) prof crs show ?thesis by (auto simp: try_relocate_block_def Let_def)
      next
        case False
        have ne: "cf_hours c \<noteq> []"
          using assms(1) crs prof False
          by (auto simp: try_relocate_block_def Let_def split: list.splits)
        obtain sched where mo: "map_of (all_schedules s) ?g = Some sched"
          using assms(1) crs prof False ne
          by (auto simp: try_relocate_block_def Let_def case_list_hd split: option.splits)
        let ?h0 = "hd (cf_hours c)"
        let ?old = "map h_slot_id (cf_hours c)"
        let ?od = "day_to_restore course
                     (find (\<lambda>sl. ts_id sl = h_slot_id ?h0) (valid_slots data))"
        let ?t1 = "unassign (global_tracker s) p ?g ?old"
        let ?t2 = "case ?od of None \<Rightarrow> ?t1 | Some d \<Rightarrow> remove_day_for_course ?t1 ?g ?cid d"
        let ?ru1 = "unmark_room_used (room_usage s) (h_room_id ?h0) ?old"
        let ?sched1 = "fold (\<lambda>h m. AList.delete (h_hour_id h) m) (cf_hours c) sched"
        let ?s1 = "s\<lparr> all_schedules := AList.update ?g ?sched1 (all_schedules s),
                      global_tracker := ?t2, room_usage := ?ru1 \<rparr>"
        obtain days rng1 where sh: "shuffle (map fst (slots_by_day data)) rng = (days, rng1)"
          by (cases "shuffle (map fst (slots_by_day data)) rng")
        let ?step = "relocate_on_day rt data course ?g ?cid (length (cf_hours c))
                       (cf_is_english c)
                       (if cf_is_english c then get_fixed_hour_for_course ?t2 ?g ?cid else None)"
        have t2: "course_fixed_hour ?t2 = ?fh" by (simp split: option.splits)
        have "entries_all (entry_ok rt data ?fh) (all_schedules ?s1)"
          using entries_all_delete [OF assms(3) [unfolded sched_ok_def] mo] by simp
        then have I1: "?I (?s1, rng1)" using t2 by (simp add: sched_ok_def)
        from assms(1) obtain m s2 rng2 where
          fs: "first_success ?step days (?s1, rng1) = Ok (m, s2, rng2)"
          using crs prof False ne mo sh
          by (simp add: try_relocate_block_def Let_def case_list_hd
                   split: result.splits prod.splits if_splits)
        have I2: "?I (s2, rng2)"
        proof (rule first_success_pres [where I = ?I, OF fs I1])
          fix x st b1 st1
          assume I: "?I st" and st: "?step x st = Ok (b1, st1)"
          obtain sa ra where sa: "st = (sa, ra)" by (cases st)
          obtain sb rb where sb: "st1 = (sb, rb)" by (cases st1)
          from relocate_on_day_ok [OF st [unfolded sa sb] assms(2) nen] I sa sb
          show "?I st1" by simp
        qed
        show ?thesis
        proof (cases m)
          case True
          with assms(1) fs have "s' = s2"
            using crs prof False ne mo sh
            by (simp add: try_relocate_block_def Let_def case_list_hd)
          with I2 show ?thesis by simp
        next
          case nm: False
          from assms(1) fs nm obtain scheds where
            fe: "for_each (\<lambda>h scheds. sched_set scheds ?g (h_hour_id h)
                      (h_slot_id h, h_room_id h, ?cid)) (cf_hours c) (all_schedules s2) = Ok scheds"
            and s': "s' = s2\<lparr> all_schedules := scheds,
                     global_tracker :=
                       (case ?od of
                          None \<Rightarrow> assign (global_tracker s2) p ?g ?old ?cid
                        | Some d \<Rightarrow> add_day_for_course
                                     (assign (global_tracker s2) p ?g ?old ?cid) ?g ?cid d),
                     room_usage := mark_room_used (room_usage s2) (h_room_id ?h0) ?old \<rparr>"
            using crs prof False ne mo sh
            by (simp add: try_relocate_block_def Let_def case_list_hd
                     split: result.splits prod.splits if_splits)
          from I2 have e2: "entries_all (entry_ok rt data ?fh) (all_schedules s2)"
            and f2: "course_fixed_hour (global_tracker s2) = ?fh"
            by (auto simp: sched_ok_def)
          have e: "entries_all (entry_ok rt data ?fh) scheds"
            by (rule entries_all_restore
                  [where k = h_hour_id and v = "\<lambda>h. (h_slot_id h, h_room_id h, ?cid)",
                   OF fe e2]) (use hs in simp)
          have f: "course_fixed_hour (global_tracker s') = ?fh"
            unfolding s' using f2 by (simp split: option.splits)
          have "all_schedules s' = scheds" unfolding s' by simp
          with e f show ?thesis by (simp add: sched_ok_def)
        qed
      qed
    qed
  qed
qed

lemma conflict_english:
  assumes "c \<in> set (get_conflicting_blocks rt wanted gid scheds data)"
  shows "cf_is_english c = english_course rt data (cf_course_id c)"
proof -
  from assms obtain og b where c: "c = make_conflict rt data og b"
    by (auto simp: get_conflicting_blocks_def)
  obtain bk cid hs where bb: "b = (bk, cid, hs)" by (cases b)
  show ?thesis unfolding c bb by (simp add: make_conflict_def english_course_def)
qed

lemma conflict_ok_of:
  assumes "c \<in> set (get_conflicting_blocks rt wanted gid scheds data)"
    and "entries_all (entry_ok rt data fh) scheds" and "\<not> cf_is_english c"
  shows "conflict_ok rt data fh c"
proof -
  let ?cid = "cf_course_id c"
  from conflict_is_block [OF assms(1)] obtain sched bk where
    m: "(cf_group_id c, sched) \<in> set scheds"
    and bf: "block_from sched (bk, ?cid, cf_hours c)" by blast
  from bf have hs: "\<forall>h \<in> set (cf_hours c).
        (\<exists>c'. (h_hour_id h, (h_slot_id h, h_room_id h, c')) \<in> set sched)
      \<and> (fst (h_hour_id h), fst (snd (h_hour_id h)), fst (snd (snd (h_hour_id h)))) = bk"
    and fst: "\<exists>kj sid room. ((fst bk, fst (snd bk), snd (snd bk), kj), (sid, room, ?cid))
                \<in> set sched"
    by (simp_all add: block_from_def)
  have ok: "\<And>e. e \<in> set sched \<Longrightarrow> entry_ok rt data fh (cf_group_id c) e"
    using assms(2) m by (auto simp: entries_all_def)
  from fst obtain kj sid room where
    "((fst bk, fst (snd bk), snd (snd bk), kj), (sid, room, ?cid)) \<in> set sched" by blast
  from ok [OF this] have bkc: "fst (snd bk) = ?cid" by (simp add: entry_ok_def)
  have "\<forall>h \<in> set (cf_hours c).
          entry_ok rt data fh (cf_group_id c) (h_hour_id h, (h_slot_id h, h_room_id h, ?cid))"
  proof
    fix h assume h: "h \<in> set (cf_hours c)"
    with hs obtain c' where e: "(h_hour_id h, (h_slot_id h, h_room_id h, c')) \<in> set sched"
      and k: "(fst (h_hour_id h), fst (snd (h_hour_id h)), fst (snd (snd (h_hour_id h)))) = bk"
      by blast
    obtain kg kc kb kj where hk: "h_hour_id h = (kg, kc, kb, kj)" by (metis prod.collapse)
    from ok [OF e] have "kc = c'" by (simp add: entry_ok_def hk)
    moreover from k hk bkc have "kc = ?cid" by auto
    ultimately have "c' = ?cid" by simp
    with ok [OF e] show
      "entry_ok rt data fh (cf_group_id c) (h_hour_id h, (h_slot_id h, h_room_id h, ?cid))"
      by simp
  qed
  moreover have "\<not> english_course rt data ?cid"
    using conflict_english [OF assms(1)] assms(3) by simp
  ultimately show ?thesis using assms(3) by (simp add: conflict_ok_def)
qed

lemma relocate_all_ok:
  assumes "relocate_all rt data cs (s, rng) = Ok (b, s', rng')"
    and "index_ok data" and "sched_ok rt data s"
    and "\<forall>c \<in> set cs. conflict_ok rt data (course_fixed_hour (global_tracker s)) c"
  shows "sched_ok rt data s'
       \<and> course_fixed_hour (global_tracker s') = course_fixed_hour (global_tracker s)"
proof -
  let ?fh = "course_fixed_hour (global_tracker s)"
  let ?I = "\<lambda>st. sched_ok rt data (fst st) \<and> course_fixed_hour (global_tracker (fst st)) = ?fh"
  from assms(1) obtain b1 where
    fs: "first_success (relocate_step rt data) cs (s, rng) = Ok (b1, s', rng')"
    by (auto simp: relocate_all_def split: result.splits)
  have "?I (s', rng')"
  proof (rule first_success_pres [where I = ?I, OF fs])
    show "?I (s, rng)" using assms(3) by simp
  next
    fix c st b2 st2
    assume c: "c \<in> set cs" and I: "?I st" and st: "relocate_step rt data c st = Ok (b2, st2)"
    obtain sa ra where sa: "st = (sa, ra)" by (cases st)
    obtain sb rb where sb: "st2 = (sb, rb)" by (cases st2)
    from st obtain m where t: "try_relocate_block rt c data sa ra = Ok (m, sb, rb)"
      unfolding sa sb by (auto simp: relocate_step_def split: result.splits)
    from I sa have i1: "sched_ok rt data sa" and i2: "course_fixed_hour (global_tracker sa) = ?fh"
      by auto
    from assms(4) c i2 have co: "conflict_ok rt data (course_fixed_hour (global_tracker sa)) c"
      by simp
    from try_relocate_block_ok [OF t assms(2) i1 co] i2 sb show "?I st2" by simp
  qed
  then show ?thesis by simp
qed

lemma english_gather_conflicts:
  assumes "english_gather rt data scheds p g hour seq = Ok (Some cs)" and "c \<in> set cs"
  shows "\<not> cf_is_english c \<and> (\<exists>wanted. c \<in> set (get_conflicting_blocks rt wanted g scheds data))"
  using assms
proof (induction seq arbitrary: cs)
  case Nil
  then show ?case by simp
next
  case (Cons day rest)
  from Cons.prems(1) have "\<exists>(sl::TimeSlot) cs'.
      \<not> list_ex cf_is_english (get_conflicting_blocks rt [ts_id sl] g scheds data)
    \<and> english_gather rt data scheds p g hour rest = Ok (Some cs')
    \<and> cs = get_conflicting_blocks rt [ts_id sl] g scheds data @ cs'"
    by (simp add: Let_def split: option.splits if_splits result.splits) blast
  then obtain sl :: TimeSlot and cs' where
    ne: "\<not> list_ex cf_is_english (get_conflicting_blocks rt [ts_id sl] g scheds data)"
    and r: "english_gather rt data scheds p g hour rest = Ok (Some cs')"
    and cs: "cs = get_conflicting_blocks rt [ts_id sl] g scheds data @ cs'"
    by blast
  from Cons.prems(2) cs consider
    "c \<in> set (get_conflicting_blocks rt [ts_id sl] g scheds data)" | "c \<in> set cs'" by auto
  then show ?case
  proof cases
    case 1
    with ne show ?thesis by (auto simp: list_ex_iff)
  next
    case 2
    from Cons.IH [OF r 2] show ?thesis .
  qed
qed

lemma english_commit_ok:
  assumes "english_commit cid g p r n ps s = Ok s'" and "entries_all P (all_schedules s)"
    and "\<forall>x \<in> set ps. \<forall>bn. P g ((g, cid, bn, 0), (ts_id (snd x), r, cid))"
  shows "entries_all P (all_schedules s')
       \<and> course_fixed_hour (global_tracker s') = course_fixed_hour (global_tracker s)"
  using assms
proof (induction ps arbitrary: n s)
  case Nil
  then show ?case by simp
next
  case (Cons x ps)
  from Cons.prems(1) obtain scheds where
    ss: "sched_set (all_schedules s) g (g, cid, n, 0) (ts_id (snd x), r, cid) = Ok scheds"
    and rest: "english_commit cid g p r (Suc n) ps
                 (s\<lparr> all_schedules := scheds,
                     global_tracker :=
                       add_day_for_course
                         (assign (global_tracker s) p g [ts_id (snd x)] cid) g cid (fst x),
                     room_usage := mark_room_used (room_usage s) r [ts_id (snd x)] \<rparr>) = Ok s'"
    by (auto split: result.splits)
  have px: "P g ((g, cid, n, 0), (ts_id (snd x), r, cid))" using Cons.prems(3) by simp
  have e: "entries_all P scheds" by (rule entries_all_sched_set [OF ss Cons.prems(2) px])
  have r3: "\<forall>x \<in> set ps. \<forall>bn. P g ((g, cid, bn, 0), (ts_id (snd x), r, cid))"
    using Cons.prems(3) by simp
  from Cons.IH [OF rest _ r3] e show ?case by simp
qed

lemma fixed_or_mem:
  assumes "hour \<in> set (fixed_or fixed hs)" and "truthy_str fixed"
  shows "fixed = Some hour"
  using assms by (auto simp: fixed_or_def truthy_str_def split: option.splits if_splits)

lemma english_place_ok:
  assumes "english_place cid g p r fixed hour ps s = Ok s'"
    and "index_ok data" and "sched_ok rt data s"
    and "fixed = course_fixed_hour (global_tracker s) (g, cid)"
    and "truthy_str fixed \<longrightarrow> fixed = Some hour"
    and "\<forall>x \<in> set ps. snd x \<in> set (valid_slots data) \<and> start_time (snd x) = hour"
  shows "sched_ok rt data s'"
proof -
  let ?fh = "course_fixed_hour (global_tracker s)"
  let ?fh' = "if truthy_str fixed then ?fh else ?fh((g, cid) \<mapsto> hour)"
  from assms(1) obtain s1 where ec: "english_commit cid g p r 1 ps s = Ok s1"
    and s': "s' = (if truthy_str fixed then s1
                   else s1\<lparr>global_tracker :=
                             set_fixed_hour_for_course (global_tracker s1) g cid hour\<rparr>)"
    by (auto simp: english_place_def split: result.splits if_splits)
  have ext: "\<And>k h. ?fh k = Some h \<Longrightarrow> h \<noteq> [] \<Longrightarrow> ?fh' k = Some h"
    using assms(4) by (auto simp: truthy_str_def)
  have old: "entries_all (entry_ok rt data ?fh') (all_schedules s)"
    by (rule entries_all_mono [OF assms(3) [unfolded sched_ok_def]])
       (rule entry_ok_mono, assumption, rule ext)
  have fx: "?fh' (g, cid) = Some hour" using assms(4,5) by auto
  have new: "\<forall>x \<in> set ps. \<forall>bn.
      entry_ok rt data ?fh' g ((g, cid, bn, 0), (ts_id (snd x), r, cid))"
  proof (intro ballI allI)
    fix x bn assume "x \<in> set ps"
    with assms(6) have v: "snd x \<in> set (valid_slots data)" and st: "start_time (snd x) = hour"
      by auto
    from v assms(2) have "in_window (snd x)" by (auto simp: index_ok_def)
    with st have "hour \<noteq> []" using in_window_nonempty by blast
    with v st fx show "entry_ok rt data ?fh' g ((g, cid, bn, 0), (ts_id (snd x), r, cid))"
      unfolding entry_ok_def by auto
  qed
  from english_commit_ok [OF ec old new]
  have e1: "entries_all (entry_ok rt data ?fh') (all_schedules s1)"
    and f1: "course_fixed_hour (global_tracker s1) = ?fh" by simp_all
  have fs: "course_fixed_hour (global_tracker s') = ?fh'"
    unfolding s' using f1 by (auto simp: set_fixed_hour_for_course_def)
  have as: "all_schedules s' = all_schedules s1" unfolding s' by simp
  show ?thesis unfolding sched_ok_def fs as by (rule e1)
qed

lemma english_positions_valid:
  assumes "english_positions chk data s p g r hour seq = Ok (Some ps)" and "slots_by_day_ok data"
  shows "\<forall>x \<in> set ps. snd x \<in> set (valid_slots data) \<and> start_time (snd x) = hour"
proof
  fix x assume x: "x \<in> set ps"
  obtain d sl where xx: "x = (d, sl)" by (cases x)
  from english_positions_props [OF assms(1)] x xx obtain l where
    m: "map_of (slots_by_day data) d = Some l" and sl: "sl \<in> set l" and st: "start_time sl = hour"
    by blast
  from m have "(d, l) \<in> set (slots_by_day data)" by (rule map_of_SomeD)
  with assms(2) sl have "sl \<in> set (valid_slots data)" by (auto simp: slots_by_day_ok_def)
  with st xx show "snd x \<in> set (valid_slots data) \<and> start_time (snd x) = hour" by simp
qed

lemma english_try_hour_ok:
  assumes "english_try_hour data cid g p r fixed n seq hour s = Ok (b, s')"
    and "index_ok data" and "sched_ok rt data s"
    and "fixed = course_fixed_hour (global_tracker s) (g, cid)"
    and "truthy_str fixed \<longrightarrow> fixed = Some hour"
  shows "if b then sched_ok rt data s' else s' = s"
proof (cases b)
  case False
  with assms(1) show ?thesis
    by (auto simp: english_try_hour_def split: result.splits option.splits if_splits)
next
  case True
  with assms(1) obtain ps where
    ep: "english_positions True data s p g r hour seq = Ok (Some ps)"
    and pl: "english_place cid g p r fixed hour ps s = Ok s'"
    by (auto simp: english_try_hour_def split: result.splits option.splits if_splits)
  from assms(2) have sb: "slots_by_day_ok data" by (simp add: index_ok_def)
  from english_place_ok [OF pl assms(2,3,4,5) english_positions_valid [OF ep sb]] True
  show ?thesis by simp
qed

lemma english_direct_seq_ok:
  assumes "english_direct_seq rt data cid g p r fixed n seq (hs, s, rng) = Ok (b, hs', s', rng')"
    and "index_ok data" and "sched_ok rt data s"
    and "fixed = course_fixed_hour (global_tracker s) (g, cid)"
  shows "if b then sched_ok rt data s' else s' = s"
proof -
  from assms(1) obtain inserted shuffled rng1 where
    fs: "first_success (english_try_hour data cid g p r fixed n seq)
           (fixed_or fixed shuffled) s = Ok (b, s')"
    by (auto simp: english_direct_seq_def Let_def split: result.splits prod.splits)
  show ?thesis
  proof (rule first_success_rule [where I = "\<lambda>x. x = s" and Q = "sched_ok rt data", OF fs])
    show "s = s" by simp
  next
    fix hour st b1 st1
    assume h: "hour \<in> set (fixed_or fixed shuffled)" and st: "st = s"
      and t: "english_try_hour data cid g p r fixed n seq hour st = Ok (b1, st1)"
    have "truthy_str fixed \<longrightarrow> fixed = Some hour" using fixed_or_mem [OF h] by blast
    from english_try_hour_ok [OF t [unfolded st] assms(2,3,4) this]
    show "if b1 then sched_ok rt data st1 else st1 = s" .
  qed
qed

lemma english_displace_hour_ok:
  assumes "english_displace_hour rt data cid g p r fixed n seq hour (s, rng) = Ok (b, s', rng')"
    and "index_ok data" and "sched_ok rt data s"
    and "fixed = course_fixed_hour (global_tracker s) (g, cid)"
    and "truthy_str fixed \<longrightarrow> fixed = Some hour"
  shows "sched_ok rt data s'
       \<and> (\<not> b \<longrightarrow> course_fixed_hour (global_tracker s') = course_fixed_hour (global_tracker s))"
proof (cases "english_gather rt data (all_schedules s) p g hour seq")
  case (Error e)
  with assms(1) show ?thesis by (simp add: english_displace_hour_def)
next
  case (Ok r0)
  show ?thesis
  proof (cases r0)
    case None
    with assms(1,3) Ok show ?thesis by (auto simp: english_displace_hour_def)
  next
    case (Some cs)
    note g = Ok [unfolded Some]
    show ?thesis
    proof (cases "cs = []")
      case True
      with assms(1,3) g show ?thesis by (auto simp: english_displace_hour_def)
    next
      case False
      from assms(1) g False obtain am s1 rng1 where
        ra: "relocate_all rt data cs (s, rng) = Ok (am, s1, rng1)"
        by (auto simp: english_displace_hour_def split: result.splits)
      have co: "\<forall>c \<in> set cs. conflict_ok rt data (course_fixed_hour (global_tracker s)) c"
      proof
        fix c assume "c \<in> set cs"
        from english_gather_conflicts [OF g this] obtain wanted where
          "\<not> cf_is_english c"
          "c \<in> set (get_conflicting_blocks rt wanted g (all_schedules s) data)" by blast
        from conflict_ok_of [OF this(2) assms(3) [unfolded sched_ok_def] this(1)]
        show "conflict_ok rt data (course_fixed_hour (global_tracker s)) c" .
      qed
      from relocate_all_ok [OF ra assms(2,3) co]
      have s1: "sched_ok rt data s1"
        and f1: "course_fixed_hour (global_tracker s1) = course_fixed_hour (global_tracker s)"
        by simp_all
      show ?thesis
      proof (cases b)
        case nb: False
        with assms(1) g False ra have "s' = s1"
          by (auto simp: english_displace_hour_def split: result.splits option.splits if_splits)
        with s1 f1 show ?thesis by simp
      next
        case True
        with assms(1) g False ra obtain ps where
          ep: "english_positions False data s1 p g r hour seq = Ok (Some ps)"
          and pl: "english_place cid g p r fixed hour ps s1 = Ok s'"
          by (auto simp: english_displace_hour_def split: result.splits option.splits if_splits)
        from assms(2) have sb: "slots_by_day_ok data" by (simp add: index_ok_def)
        have fx: "fixed = course_fixed_hour (global_tracker s1) (g, cid)" using assms(4) f1 by simp
        from english_place_ok [OF pl assms(2) s1 fx assms(5) english_positions_valid [OF ep sb]] True
        show ?thesis by simp
      qed
    qed
  qed
qed

lemma english_attempt_ok:
  assumes "english_attempt rt data cid g p r fixed n seqs k (hs, s, rng) = Ok (b, hs', s', rng')"
    and "index_ok data" and "sched_ok rt data s"
    and "fixed = course_fixed_hour (global_tracker s) (g, cid)"
  shows "sched_ok rt data s'
       \<and> (\<not> b \<longrightarrow> course_fixed_hour (global_tracker s') = course_fixed_hour (global_tracker s))"
proof -
  let ?fh = "course_fixed_hour (global_tracker s)"
  from assms(1) obtain placed hs1 s1 rng1 where
    d: "first_success (english_direct_seq rt data cid g p r fixed n) seqs (hs, s, rng)
          = Ok (placed, hs1, s1, rng1)"
    by (auto simp: english_attempt_def split: result.splits)
  have d1: "if placed then sched_ok rt data (fst (snd (hs1, s1, rng1)))
            else fst (snd (hs1, s1, rng1)) = s"
  proof (rule first_success_rule
           [where I = "\<lambda>st. fst (snd st) = s" and Q = "\<lambda>st. sched_ok rt data (fst (snd st))",
            OF d])
    show "fst (snd (hs, s, rng)) = s" by simp
  next
    fix seq st b1 st1
    assume st: "fst (snd st) = s"
      and t: "english_direct_seq rt data cid g p r fixed n seq st = Ok (b1, st1)"
    obtain ha ra where sa: "st = (ha, s, ra)" using st by (cases st) auto
    obtain hb sb rb where sb: "st1 = (hb, sb, rb)" by (cases st1)
    from english_direct_seq_ok [OF t [unfolded sa sb] assms(2,3,4)] sb
    show "if b1 then sched_ok rt data (fst (snd st1)) else fst (snd st1) = s" by simp
  qed
  show ?thesis
  proof (cases placed)
    case True
    with assms(1) d have "b" "s' = s1" by (auto simp: english_attempt_def)
    with d1 True show ?thesis by simp
  next
    case False
    with d1 have s1: "s1 = s" by simp
    let ?I = "\<lambda>st. sched_ok rt data (fst st) \<and> course_fixed_hour (global_tracker (fst st)) = ?fh"
    let ?Q = "\<lambda>st. sched_ok rt data (fst st)"
    from assms(1) d False have
      fs: "first_success
             (\<lambda>seq. first_success (english_displace_hour rt data cid g p r fixed n seq)
                       (fixed_or fixed hs1))
             seqs (s, rng1) = Ok (b, s', rng')"
      unfolding s1 [symmetric]
      by (auto simp: english_attempt_def Let_def split: result.splits)
    have "if b then ?Q (s', rng') else ?I (s', rng')"
    proof (rule first_success_rule [where I = ?I and Q = ?Q, OF fs])
      show "?I (s, rng1)" using assms(3) by simp
    next
      fix seq st b1 st1
      assume I: "?I st"
        and t: "first_success (english_displace_hour rt data cid g p r fixed n seq)
                  (fixed_or fixed hs1) st = Ok (b1, st1)"
      show "if b1 then ?Q st1 else ?I st1"
      proof (rule first_success_rule [where I = ?I and Q = ?Q, OF t I])
        fix hour st2 b2 st3
        assume h: "hour \<in> set (fixed_or fixed hs1)" and I2: "?I st2"
          and u: "english_displace_hour rt data cid g p r fixed n seq hour st2 = Ok (b2, st3)"
        obtain sa ra where sa: "st2 = (sa, ra)" by (cases st2)
        obtain sb rb where sb: "st3 = (sb, rb)" by (cases st3)
        from I2 sa have i1: "sched_ok rt data sa"
          and i2: "course_fixed_hour (global_tracker sa) = ?fh" by auto
        have fx: "fixed = course_fixed_hour (global_tracker sa) (g, cid)" using assms(4) i2 by simp
        have th: "truthy_str fixed \<longrightarrow> fixed = Some hour" using fixed_or_mem [OF h] by blast
        from english_displace_hour_ok [OF u [unfolded sa sb] assms(2) i1 fx th] i2 sb
        show "if b2 then ?Q st3 else ?I st3" by auto
      qed
    qed
    then show ?thesis by (cases b) auto
  qed
qed

lemma assign_english_ok:
  assumes "assign_english_consecutive_days rt course g p r data s bd fixed ma rng
             = Ok (b, s', rng')"
    and "index_ok data" and "sched_ok rt data s"
    and "fixed = course_fixed_hour (global_tracker s) (g, c_id course)"
  shows "sched_ok rt data s'"
proof -
  let ?fh = "course_fixed_hour (global_tracker s)"
  let ?seqs = "get_consecutive_day_sequences (map fst (slots_by_day data)) (length bd)"
  show ?thesis
  proof (cases "?seqs = []")
    case True
    with assms(1,3) show ?thesis by (auto simp: assign_english_consecutive_days_def Let_def)
  next
    case False
    obtain shuffled rng1 where sh: "shuffle ?seqs rng = (shuffled, rng1)"
      by (cases "shuffle ?seqs rng")
    from assms(1) False sh obtain hs' where
      fs: "first_success (english_attempt rt data (c_id course) g p r fixed (length bd) shuffled)
             [0 ..< ma] ([], s, rng1) = Ok (b, hs', s', rng')"
      by (auto simp: assign_english_consecutive_days_def Let_def split: result.splits)
    let ?I = "\<lambda>st. sched_ok rt data (fst (snd st))
                 \<and> course_fixed_hour (global_tracker (fst (snd st))) = ?fh"
    let ?Q = "\<lambda>st. sched_ok rt data (fst (snd st))"
    have "if b then ?Q (hs', s', rng') else ?I (hs', s', rng')"
    proof (rule first_success_rule [where I = ?I and Q = ?Q, OF fs])
      show "?I ([], s, rng1)" using assms(3) by simp
    next
      fix k st b1 st1
      assume I: "?I st"
        and t: "english_attempt rt data (c_id course) g p r fixed (length bd) shuffled k st
                  = Ok (b1, st1)"
      obtain ha sa ra where sa: "st = (ha, sa, ra)" by (cases st)
      obtain hb sb rb where sb: "st1 = (hb, sb, rb)" by (cases st1)
      from I sa have i1: "sched_ok rt data sa"
        and i2: "course_fixed_hour (global_tracker sa) = ?fh" by auto
      have fx: "fixed = course_fixed_hour (global_tracker sa) (g, c_id course)"
        using assms(4) i2 by simp
      from english_attempt_ok [OF t [unfolded sa sb] assms(2) i1 fx] i2 sb
      show "if b1 then ?Q st1 else ?I st1" by auto
    qed
    then show ?thesis by (cases b) auto
  qed
qed

lemma direct_on_day_ok:
  assumes "direct_on_day rt data course g is_en d bn day st = Ok (b, st')"
    and "index_ok data" and "english_course rt data (c_id course) \<longrightarrow> is_en"
    and "placer_inv rt data g (c_id course) is_en st"
  shows "placer_inv rt data g (c_id course) is_en st'"
proof -
  obtain fixed s rng where st: "st = (fixed, s, rng)" by (cases st)
  obtain fixed' s' rng' where st': "st' = (fixed', s', rng')" by (cases st')
  from assms(4) st have so: "sched_ok rt data s"
    and fx: "fixed = (if is_en then course_fixed_hour (global_tracker s) (g, c_id course) else None)"
    by (simp_all add: placer_inv_def)
  show ?thesis
  proof (cases b)
    case False
    with assms(1) have "st' = st"
      by (auto simp: direct_on_day_def st split: if_splits result.splits prod.splits)
    with assms(4) show ?thesis by simp
  next
    case True
    with assms(1) obtain ps i rng1 where
      f: "find_all_valid_positions rt course g d day data s is_en fixed = Ok ps"
      and ne: "ps \<noteq> []" and i: "randbelow (length ps) rng = (i, rng1)"
      and cp: "commit_position course g is_en bn day (ps ! i) fixed s = Ok (fixed', s')"
      unfolding st st'
      by (auto simp: direct_on_day_def split: if_splits result.splits prod.splits)
    from ne i randbelow_less [of "length ps" rng] have "i < length ps" by simp
    then have mem: "ps ! i \<in> set ps" by simp
    from assms(2) have sb: "slots_by_day_ok data" by (simp add: index_ok_def)
    have po: "position_ok data is_en fixed (ps ! i)" by (rule find_positions_ok [OF f sb mem])
    from commit_position_ok [OF cp so assms(2) po fx assms(3)]
    show ?thesis unfolding st' by (simp add: placer_inv_def)
  qed
qed

lemma displace_window_ok:
  assumes "displace_window rt data course g p is_en d bn day day_slots idx st = Ok (b, st')"
    and "index_ok data" and "english_course rt data (c_id course) \<longrightarrow> is_en"
    and "placer_inv rt data g (c_id course) is_en st"
  shows "placer_inv rt data g (c_id course) is_en st'"
proof -
  obtain fixed s rng where st: "st = (fixed, s, rng)" by (cases st)
  obtain fixed' s' rng' where st': "st' = (fixed', s', rng')" by (cases st')
  let ?fh = "course_fixed_hour (global_tracker s)"
  from assms(4) st have so: "sched_ok rt data s"
    and fx: "fixed = (if is_en then ?fh (g, c_id course) else None)"
    by (simp_all add: placer_inv_def)
  let ?ids = "map ts_id (take d (drop idx day_slots))"
  let ?movable = "filter (\<lambda>c. \<not> cf_is_english c)
                    (get_conflicting_blocks rt ?ids g (all_schedules s) data)"
  show ?thesis
  proof (cases "\<exists>r. relocate_all rt data ?movable (s, rng) = Ok r \<and> st' \<noteq> st")
    case False
    with assms(1) have "st' = st"
      unfolding st
      by (auto simp: displace_window_def Let_def
               split: list.splits if_splits result.splits prod.splits)
    with assms(4) show ?thesis by simp
  next
    case True
    then obtain am s1 rng1 where
      ra: "relocate_all rt data ?movable (s, rng) = Ok (am, s1, rng1)" and neq: "st' \<noteq> st"
      by (metis prod.collapse)
    have co: "\<forall>c \<in> set ?movable. conflict_ok rt data ?fh c"
    proof
      fix c assume "c \<in> set ?movable"
      then have m: "c \<in> set (get_conflicting_blocks rt ?ids g (all_schedules s) data)"
        and ne: "\<not> cf_is_english c" by auto
      from conflict_ok_of [OF m so [unfolded sched_ok_def] ne]
      show "conflict_ok rt data ?fh c" .
    qed
    from relocate_all_ok [OF ra assms(2) so co]
    have s1: "sched_ok rt data s1"
      and f1: "course_fixed_hour (global_tracker s1) = ?fh" by simp_all
    have fx1: "fixed = (if is_en then course_fixed_hour (global_tracker s1) (g, c_id course)
                        else None)"
      using fx f1 by simp
    have I1: "placer_inv rt data g (c_id course) is_en (fixed, s1, rng1)"
      using s1 fx1 by (simp add: placer_inv_def)
    from assms(1) ra neq consider
      (same) "st' = (fixed, s1, rng1)"
      | (placed) ps where
          "find_all_valid_positions rt course g d day data s1 is_en fixed = Ok ps" "ps \<noteq> []"
          "commit_position course g is_en bn day (hd ps) fixed s1 = Ok (fixed', s')"
      unfolding st st'
      by (auto simp: displace_window_def Let_def
               split: list.splits if_splits result.splits prod.splits)
    then show ?thesis
    proof cases
      case same
      with I1 show ?thesis by simp
    next
      case (placed ps)
      from placed(2) have mem: "hd ps \<in> set ps" by simp
      from assms(2) have sb: "slots_by_day_ok data" by (simp add: index_ok_def)
      have po: "position_ok data is_en fixed (hd ps)"
        by (rule find_positions_ok [OF placed(1) sb mem])
      from commit_position_ok [OF placed(3) s1 assms(2) po fx1 assms(3)]
      show ?thesis unfolding st' by (simp add: placer_inv_def)
    qed
  qed
qed

lemma displace_on_day_ok:
  assumes "displace_on_day rt data course g p is_en d bn day st = Ok (b, st')"
    and "index_ok data" and "english_course rt data (c_id course) \<longrightarrow> is_en"
    and "placer_inv rt data g (c_id course) is_en st"
  shows "placer_inv rt data g (c_id course) is_en st'"
proof -
  obtain fixed s rng where st: "st = (fixed, s, rng)" by (cases st)
  let ?ds = "case map_of (slots_by_day data) day of None \<Rightarrow> [] | Some l \<Rightarrow> l"
  show ?thesis
  proof (cases "max_block_duration course = 1
                 \<and> day \<in> get_used_days_for_course (global_tracker s) g (c_id course)")
    case True
    with assms(1) have "st' = st" unfolding st by (simp add: displace_on_day_def)
    with assms(4) show ?thesis by simp
  next
    case False
    with assms(1) have
      fs: "first_success (displace_window rt data course g p is_en d bn day ?ds)
             [0 ..< Suc (length ?ds) - d] st = Ok (b, st')"
      unfolding st by (auto simp: displace_on_day_def Let_def split: if_splits)
    show ?thesis
      by (rule first_success_pres [where I = "placer_inv rt data g (c_id course) is_en",
                                   OF fs assms(4)])
         (rule displace_window_ok [OF _ assms(2,3)])
  qed
qed

lemma block_attempt_ok:
  assumes "block_attempt rt data course g p is_en d bn k st = Ok (b, st')"
    and "index_ok data" and "english_course rt data (c_id course) \<longrightarrow> is_en"
    and "placer_inv rt data g (c_id course) is_en st"
  shows "placer_inv rt data g (c_id course) is_en st'"
proof -
  obtain fixed s rng where st: "st = (fixed, s, rng)" by (cases st)
  obtain days rng1 where sh: "shuffle (map fst (slots_by_day data)) rng = (days, rng1)"
    by (cases "shuffle (map fst (slots_by_day data)) rng")
  from assms(1) obtain a st1 where
    d: "first_success (direct_on_day rt data course g is_en d bn) days (fixed, s, rng1)
          = Ok (a, st1)"
    unfolding st using sh by (auto simp: block_attempt_def split: result.splits)
  have I0: "placer_inv rt data g (c_id course) is_en (fixed, s, rng1)"
    using assms(4) st by (simp add: placer_inv_def)
  have I1: "placer_inv rt data g (c_id course) is_en st1"
    by (rule first_success_pres [where I = "placer_inv rt data g (c_id course) is_en", OF d I0])
       (rule direct_on_day_ok [OF _ assms(2,3)])
  show ?thesis
  proof (cases a)
    case True
    with assms(1) d sh have "st' = st1" unfolding st by (simp add: block_attempt_def)
    with I1 show ?thesis by simp
  next
    case False
    with assms(1) d sh have
      fs: "first_success (displace_on_day rt data course g p is_en d bn) days st1 = Ok (b, st')"
      unfolding st by (simp add: block_attempt_def)
    show ?thesis
      by (rule first_success_pres [where I = "placer_inv rt data g (c_id course) is_en",
                                   OF fs I1])
         (rule displace_on_day_ok [OF _ assms(2,3)])
  qed
qed

lemma assign_block_ok:
  assumes "assign_block rt data course g p is_en ma bl (fixed, cnt, s, rng)
             = Ok (fixed', cnt', s', rng')"
    and "index_ok data" and "english_course rt data (c_id course) \<longrightarrow> is_en"
    and "placer_inv rt data g (c_id course) is_en (fixed, s, rng)"
  shows "placer_inv rt data g (c_id course) is_en (fixed', s', rng')"
proof -
  from assms(1) obtain a where
    fs: "first_success (block_attempt rt data course g p is_en (snd bl) (fst bl + 1))
           [0 ..< ma] (fixed, s, rng) = Ok (a, fixed', s', rng')"
    by (auto simp: assign_block_def split: result.splits)
  show ?thesis
    by (rule first_success_pres [where I = "placer_inv rt data g (c_id course) is_en",
                                 OF fs assms(4)])
       (rule block_attempt_ok [OF _ assms(2,3)])
qed

lemma force_assign_ok:
  assumes "force_assign_with_displacement rt course g data s is_en bd ma rng = Ok (b, s', rng')"
    and "index_ok data" and "english_course rt data (c_id course) \<longrightarrow> is_en"
    and "sched_ok rt data s"
  shows "sched_ok rt data s'"
proof -
  let ?fixed = "if is_en then get_fixed_hour_for_course (global_tracker s) g (c_id course)
                else None"
  show ?thesis
  proof (cases "\<exists>p r. get_professor_for_group_course data g (c_id course) = Some p \<and> p \<noteq> 0
                   \<and> get_professor_room data p = Some r \<and> r \<noteq> 0")
    case False
    with assms(1) have "s' = s"
      by (auto simp: force_assign_with_displacement_def split: option.splits if_splits)
    with assms(4) show ?thesis by simp
  next
    case True
    then obtain p r where p: "get_professor_for_group_course data g (c_id course) = Some p"
      "p \<noteq> 0" "get_professor_room data p = Some r" "r \<noteq> 0" by blast
    show ?thesis
    proof (cases "is_en \<and> max_block_duration course = 1")
      case True
      with assms(1) p have
        a: "assign_english_consecutive_days rt course g p r data s bd
              (get_fixed_hour_for_course (global_tracker s) g (c_id course)) ma rng
            = Ok (b, s', rng')"
        by (simp add: force_assign_with_displacement_def Let_def)
      show ?thesis
        by (rule assign_english_ok [OF a assms(2,4)]) (simp add: get_fixed_hour_for_course_def)
    next
      case False
      with assms(1) p obtain fixed' cnt where
        fe: "for_each (assign_block rt data course g p is_en ma) (enumerate 0 bd)
               (?fixed, 0, s, rng) = Ok (fixed', cnt, s', rng')"
        by (auto simp: force_assign_with_displacement_def Let_def split: result.splits)
      let ?I = "\<lambda>st. placer_inv rt data g (c_id course) is_en (fst st, snd (snd st))"
      have "?I (fixed', cnt, s', rng')"
      proof (rule for_each_inv [where I = ?I, OF fe])
        show "?I (?fixed, 0, s, rng)"
          using assms(4) by (simp add: placer_inv_def get_fixed_hour_for_course_def)
      next
        fix bl st st1
        assume I: "?I st" and t: "assign_block rt data course g p is_en ma bl st = Ok st1"
        obtain fa ca sa ra where sa: "st = (fa, ca, sa, ra)" by (cases st)
        obtain fb cb sb rb where sb: "st1 = (fb, cb, sb, rb)" by (cases st1)
        from I sa have "placer_inv rt data g (c_id course) is_en (fa, sa, ra)" by simp
        from assign_block_ok [OF t [unfolded sa sb] assms(2,3) this] sb
        show "?I st1" by simp
      qed
      then show ?thesis by (simp add: placer_inv_def)
    qed
  qed
qed

lemma fold_upd_key:
  assumes "\<forall>k x. m k = Some x \<longrightarrow> key x = k"
  shows "\<forall>k x. fold (\<lambda>x m. m(key x \<mapsto> x)) xs m k = Some x \<longrightarrow> key x = k"
  using assms
proof (induction xs arbitrary: m)
  case Nil
  then show ?case by simp
next
  case (Cons y ys)
  have "\<forall>k x. (m(key y \<mapsto> y)) k = Some x \<longrightarrow> key x = k"
  proof (intro allI impI)
    fix k x assume a: "(m(key y \<mapsto> y)) k = Some x"
    show "key x = k"
    proof (cases "k = key y")
      case True
      with a show ?thesis by simp
    next
      case False
      with a have "m k = Some x" by simp
      with Cons.prems show ?thesis by blast
    qed
  qed
  then have "\<forall>k x. fold (\<lambda>x m. m(key x \<mapsto> x)) ys (m(key y \<mapsto> y)) k = Some x
                 \<longrightarrow> key x = k"
    by (rule Cons.IH)
  then show ?case unfolding fold_simps comp_apply .
qed

lemma dict_by_key:
  assumes "dict_by key xs k = Some x"
  shows "key x = k"
proof -
  have "\<forall>k x. Map.empty k = Some x \<longrightarrow> key x = k" by simp
  from fold_upd_key [OF this, of xs] have
    "\<forall>k x. fold (\<lambda>x m. m(key x \<mapsto> x)) xs Map.empty k = Some x \<longrightarrow> key x = k" .
  moreover from assms have "fold (\<lambda>x m. m(key x \<mapsto> x)) xs Map.empty k = Some x"
    unfolding dict_by_def .
  ultimately show ?thesis by blast
qed

lemma init_index_ok:
  "index_ok (init_SchedulingData cs rs timeslots profs assignments prof_rooms)"
proof -
  let ?data = "init_SchedulingData cs rs timeslots profs assignments prof_rooms"
  have a: "slots_by_day_ok ?data" by (rule init_slots_by_day_ok)
  have b: "\<forall>sl \<in> set (valid_slots ?data). in_window sl" by (simp add: init_SchedulingData_def)
  have c: "\<forall>k course. courses ?data k = Some course \<longrightarrow> c_id course = k"
  proof (intro allI impI)
    fix k course assume "courses ?data k = Some course"
    then have "dict_by c_id cs k = Some course" by (simp add: init_SchedulingData_def)
    then show "c_id course = k" by (rule dict_by_key)
  qed
  show ?thesis unfolding index_ok_def by (intro conjI a b c)
qed

lemma english_course_of:
  "courses data (c_id course) = Some course \<Longrightarrow>
   english_course rt data (c_id course) = is_english_name rt (c_name course)"
  by (simp add: english_course_def)

lemma unique_courses_ok:
  assumes "\<forall>x \<in> set acc. courses data (fst x) = Some (snd x)"
  shows "\<forall>x \<in> set (fold (add_unique_course data) asgs acc). courses data (fst x) = Some (snd x)"
  using assms
proof (induction asgs arbitrary: acc)
  case Nil
  then show ?case by simp
next
  case (Cons a asgs)
  have "\<forall>x \<in> set (add_unique_course data a acc). courses data (fst x) = Some (snd x)"
    using Cons.prems by (auto simp: add_unique_course_def split: option.splits)
  from Cons.IH [OF this] show ?case unfolding fold_simps comp_apply .
qed

lemma sorted_courses_subset: "set (sorted_courses rt cl) \<subseteq> set cl"
proof -
  let ?en = "filter (\<lambda>c. is_english_name rt (c_name c)) cl"
  have "set (sorted_courses rt cl) = set ?en \<union> set (filter (\<lambda>c. c \<notin> set ?en) cl)"
    by (simp add: sorted_courses_def Let_def)
  also have "\<dots> \<subseteq> set cl" by auto
  finally show ?thesis .
qed

lemma empty_schedules:
  assumes "\<forall>gs \<in> set acc. snd gs = []"
  shows "\<forall>gs \<in> set (fold (\<lambda>g m. AList.update (g_id g) [] m) groups acc). snd gs = []"
  using assms
proof (induction groups arbitrary: acc)
  case Nil
  then show ?case by simp
next
  case (Cons g groups)
  have "\<forall>gs \<in> set (AList.update (g_id g) [] acc). snd gs = []"
    using Cons.prems set_update_subset [of "g_id g" "[]" acc] by auto
  from Cons.IH [OF this] show ?case unfolding fold_simps comp_apply .
qed

lemma reached_sched_ok:
  assumes "reached rt data groups s" and "index_ok data"
  shows "sched_ok rt data s"
  using assms(1)
proof (induction rule: reached.induct)
  case start
  have "\<forall>gs \<in> set (fold (\<lambda>g m. AList.update (g_id g) [] m) groups []). snd gs = []"
    by (rule empty_schedules) simp
  then show ?case unfolding sched_ok_def entries_all_def by auto
next
  case (placer s course_id course group_id block_durations max_attempts rng b s' rng')
  from assms(2) placer.hyps(2) have "c_id course = course_id" by (simp add: index_ok_def)
  with placer.hyps(2) have c: "courses data (c_id course) = Some course" by simp
  have en: "english_course rt data (c_id course) \<longrightarrow> is_english_name rt (c_name course)"
    using english_course_of [OF c] by simp
  from force_assign_ok [OF placer.hyps(3) assms(2) en placer.IH] show ?case .
qed

lemma place_course_reached:
  assumes "place_course rt data asgs english course st = Ok st'"
    and "courses data (c_id course) = Some course"
    and "(course \<in> set english) = is_english_name rt (c_name course)"
    and "reached rt data groups (fst st)"
  shows "reached rt data groups (fst st')"
proof -
  let ?en = "course \<in> set english"
  let ?gs = "int_set_order rt (map a_group_id (filter (\<lambda>a. a_course_id a = c_id course) asgs))"
  from assms(1) obtain bd where
    fe: "for_each (\<lambda>group_id st. case st of (s, rng) \<Rightarrow>
                    (case force_assign_with_displacement rt course group_id data s ?en bd 50 rng of
                       Error e \<Rightarrow> Error e
                     | Ok (success, st') \<Rightarrow> Ok st')) ?gs st = Ok st'"
    by (auto simp: place_course_def Let_def split: option.splits)
  show ?thesis
  proof (rule for_each_inv [where I = "\<lambda>st. reached rt data groups (fst st)", OF fe assms(4)])
    fix g st1 st2
    assume I: "reached rt data groups (fst st1)"
      and t: "(case st1 of (s, rng) \<Rightarrow>
                 (case force_assign_with_displacement rt course g data s ?en bd 50 rng of
                    Error e \<Rightarrow> Error e
                  | Ok (success, st') \<Rightarrow> Ok st')) = Ok st2"
    obtain sa ra where sa: "st1 = (sa, ra)" by (cases st1)
    obtain sb rb where sb: "st2 = (sb, rb)" by (cases st2)
    from t obtain b where
      f: "force_assign_with_displacement rt course g data sa
            (is_english_name rt (c_name course)) bd 50 ra = Ok (b, sb, rb)"
      unfolding sa sb assms(3) by (auto split: result.splits)
    from I sa have i: "reached rt data groups sa" by simp
    from reached.placer [OF i assms(2) f] sb show "reached rt data groups (fst st2)" by simp
  qed
qed

lemma verify_assignment_reached:
  assumes "verify_assignment rt data grp counted a st = Ok st'"
    and "reached rt data groups (fst st)"
  shows "reached rt data groups (fst st')"
proof -
  obtain s rng where st: "st = (s, rng)" by (cases st)
  obtain s' rng' where st': "st' = (s', rng')" by (cases st')
  show ?thesis
  proof (cases "st' = st")
    case True
    with assms(2) show ?thesis by simp
  next
    case False
    with assms(1) obtain course bd b where
      c: "courses data (a_course_id a) = Some course"
      and f: "force_assign_with_displacement rt course (g_id grp) data s
                (is_english_name rt (c_name course)) bd 100 rng = Ok (b, s', rng')"
      unfolding st st'
      by (auto simp: verify_assignment_def Let_def split: if_splits option.splits result.splits)
    from assms(2) st have i: "reached rt data groups s" by simp
    from reached.placer [OF i c f] st' show ?thesis by simp
  qed
qed

lemma verify_group_reached:
  assumes "verify_group rt data asgs grp st = Ok st'"
    and "reached rt data groups (fst st)"
  shows "reached rt data groups (fst st')"
proof -
  from assms(1) obtain counted where
    fe: "for_each (verify_assignment rt data grp counted) asgs st = Ok st'"
    by (auto simp: verify_group_def split: option.splits)
  show ?thesis
    by (rule for_each_inv [where I = "\<lambda>st. reached rt data groups (fst st)", OF fe assms(2)])
       (rule verify_assignment_reached)
qed

lemma run_all_groups_reached:
  assumes "run_all_groups rt cs rs timeslots profs asgs prof_rooms groups rng = Ok (s, rng')"
  shows "reached rt (init_SchedulingData cs rs timeslots profs asgs prof_rooms) groups s"
proof -
  let ?data = "init_SchedulingData cs rs timeslots profs asgs prof_rooms"
  let ?s0 = "\<lparr> all_schedules = fold (\<lambda>g m. AList.update (g_id g) [] m) groups [],
               global_tracker = init_GroupScheduleTracker, room_usage = Map.empty \<rparr>"
  let ?cl = "map snd (fold (add_unique_course ?data) asgs [])"
  let ?en = "filter (\<lambda>c. is_english_name rt (c_name c)) ?cl"
  have ix: "index_ok ?data" by (rule init_index_ok)
  from assms obtain st1 where
    p1: "for_each (place_course rt ?data asgs ?en) (sorted_courses rt ?cl) (?s0, rng) = Ok st1"
    and p2: "for_each (verify_group rt ?data asgs) groups st1 = Ok (s, rng')"
    by (auto simp: run_all_groups_def Let_def split: result.splits)
  have i0: "reached rt ?data groups (fst (?s0, rng))" using reached.start by simp
  have uc: "\<forall>x \<in> set (fold (add_unique_course ?data) asgs []).
              courses ?data (fst x) = Some (snd x)"
    by (rule unique_courses_ok) simp
  have i1: "reached rt ?data groups (fst st1)"
  proof (rule for_each_inv [where I = "\<lambda>st. reached rt ?data groups (fst st)", OF p1 i0])
    fix course st st'
    assume c: "course \<in> set (sorted_courses rt ?cl)" and I: "reached rt ?data groups (fst st)"
      and t: "place_course rt ?data asgs ?en course st = Ok st'"
    from c sorted_courses_subset have m: "course \<in> set ?cl" by blast
    then obtain k where "(k, course) \<in> set (fold (add_unique_course ?data) asgs [])" by auto
    with uc have ck: "courses ?data k = Some course" by auto
    with ix have "c_id course = k" by (simp add: index_ok_def)
    with ck have c': "courses ?data (c_id course) = Some course" by simp
    have en: "(course \<in> set ?en) = is_english_name rt (c_name course)" using m by simp
    from place_course_reached [OF t c' en I] show "reached rt ?data groups (fst st')" .
  qed
  have "reached rt ?data groups (fst (s, rng'))"
    by (rule for_each_inv [where I = "\<lambda>st. reached rt ?data groups (fst st)", OF p2 i1])
       (rule verify_group_reached)
  then show ?thesis by simp
qed

lemma sched_ok_window:
  assumes "sched_ok rt (init_SchedulingData cs rs timeslots profs asgs prof_rooms) s"
    and "(g, sched) \<in> set (all_schedules s)" and "(key, (sid, room, cid)) \<in> set sched"
  shows "slot_in_window timeslots sid"
proof -
  let ?data = "init_SchedulingData cs rs timeslots profs asgs prof_rooms"
  obtain kg kc kb kj where k: "key = (kg, kc, kb, kj)" by (metis prod.collapse)
  from assms have "entry_ok rt ?data (course_fixed_hour (global_tracker s)) g
                     ((kg, kc, kb, kj), (sid, room, cid))"
    unfolding sched_ok_def entries_all_def k by fastforce
  then obtain sl where sl: "sl \<in> set (valid_slots ?data)" and id: "ts_id sl = sid"
    by (auto simp: entry_ok_def)
  from sl have m: "sl \<in> set timeslots" and w: "in_window sl"
    by (simp_all add: init_SchedulingData_def)
  have "distinct (map ts_id timeslots) \<longrightarrow>
        (\<forall>sl' \<in> set timeslots. ts_id sl' = sid \<longrightarrow> in_window sl')"
  proof (intro ballI impI)
    fix sl' assume d: "distinct (map ts_id timeslots)"
      and m': "sl' \<in> set timeslots" and id': "ts_id sl' = sid"
    from d have "inj_on ts_id (set timeslots)" by (simp add: distinct_map)
    with m m' id id' have "sl' = sl" by (auto dest: inj_onD)
    with w show "in_window sl'" by simp
  qed
  with m id w show ?thesis unfolding slot_in_window_def by blast
qed


lemma reached_all_in_window:
  assumes "reached rt (init_SchedulingData cs rs timeslots profs asgs prof_rooms) groups s"
  shows "all_in_window timeslots (all_schedules s)"
proof -
  let ?data = "init_SchedulingData cs rs timeslots profs asgs prof_rooms"
  have ok: "sched_ok rt ?data s" by (rule reached_sched_ok [OF assms init_index_ok])
  show ?thesis
    unfolding all_in_window_def
  proof (intro ballI)
    fix gs e assume gs: "gs \<in> set (all_schedules s)" and e: "e \<in> set (snd gs)"
    obtain g sched where g: "gs = (g, sched)" by (cases gs)
    obtain key sid room cid where ee: "e = (key, (sid, room, cid))" by (metis prod.collapse)
    from gs e g ee have "(g, sched) \<in> set (all_schedules s)"
      "(key, (sid, room, cid)) \<in> set sched" by simp_all
    from sched_ok_window [OF ok this] ee show "slot_in_window timeslots (fst (snd e))" by simp
  qed
qed



section \<open>The evening window\<close>

text \<open>
  C7. Every slot id stored in a group's schedule is the id of a timeslot of the input
  whose start time is at least "17:00" and less than "22:00" (and, when the ids of the
  input are distinct, the timeslot with that id is such a timeslot). This holds of the
  schedules the orchestrator returns and of the schedules of every state reached between
  two calls of the placer, whatever the random choices.
\<close>

theorem placed_slots_in_window:
  "(generate_schedule_for_all_groups rt cs rs timeslots profs asgs prof_rooms groups rng = Ok scheds
      \<longrightarrow> all_in_window timeslots scheds)
 \<and> (reached rt (init_SchedulingData cs rs timeslots profs asgs prof_rooms) groups s
      \<longrightarrow> all_in_window timeslots (all_schedules s))"
proof (rule conjI; rule impI)
  assume "generate_schedule_for_all_groups rt cs rs timeslots profs asgs prof_rooms groups rng
            = Ok scheds"
  then obtain s' rng' where
    run: "run_all_groups rt cs rs timeslots profs asgs prof_rooms groups rng = Ok (s', rng')"
    and sc: "scheds = all_schedules s'"
    by (auto simp: generate_schedule_for_all_groups_def split: result.splits)
  from reached_all_in_window [OF run_all_groups_reached [OF run]] sc
  show "all_in_window timeslots scheds" by simp
next
  assume "reached rt (init_SchedulingData cs rs timeslots profs asgs prof_rooms) groups s"
  then show "all_in_window timeslots (all_schedules s)" by (rule reached_all_in_window)
qed


text \<open>
  The run on two groups and three courses in which the block of course 2 is relocated to
  Tuesday: the slot ids it stores, 1017 and 2017, are those of the 17:00 slots.
\<close>

theorem placed_slots_in_window_witness:
  "\<exists>s rng'.
      run_all_groups std_runtime three_courses [] two_days three_professors three_assignments
        own_rooms [mk_group 1, mk_group 2] [1, 1, 0, 1, 0, 0, 0] = Ok (s, rng')
    \<and> reached std_runtime two_groups_index [mk_group 1, mk_group 2] s
    \<and> all_schedules s = [(1, [((1, 1, 1, 0), 1017, 1, 1)]),
                          (2, [((2, 2, 1000, 0), 2017, 3, 2), ((2, 3, 1, 0), 1017, 2, 3)])]
    \<and> all_in_window two_days (all_schedules s)
    \<and> slot_in_window two_days 2017
    \<and> distinct (map ts_id two_days)
    \<and> (\<forall>sl \<in> set two_days. ts_id sl = 2017 \<longrightarrow> in_window sl)"
proof -
  let ?out = "[(1, [((1, 1, 1, 0), 1017, 1, 1)]),
               (2, [((2, 2, 1000, 0), 2017, 3, 2), ((2, 3, 1, 0), 1017, 2, 3)])]
              :: schedules"
  have g: "generate_schedule_for_all_groups std_runtime three_courses [] two_days
             three_professors three_assignments own_rooms [mk_group 1, mk_group 2]
             [1, 1, 0, 1, 0, 0, 0] = Ok ?out"
    by code_simp
  then obtain s rng' where
    r: "run_all_groups std_runtime three_courses [] two_days three_professors three_assignments
          own_rooms [mk_group 1, mk_group 2] [1, 1, 0, 1, 0, 0, 0] = Ok (s, rng')"
    and a: "all_schedules s = ?out"
    by (auto simp: generate_schedule_for_all_groups_def split: result.splits)
  have re: "reached std_runtime two_groups_index [mk_group 1, mk_group 2] s"
    unfolding two_groups_index_def by (rule run_all_groups_reached [OF r])
  from conjunct1 [OF placed_slots_in_window] g have w1: "all_in_window two_days ?out" by blast
  from conjunct2 [OF placed_slots_in_window] re [unfolded two_groups_index_def]
  have w2: "all_in_window two_days (all_schedules s)" by blast
  from w1 have sw: "slot_in_window two_days 2017" by (simp add: all_in_window_def)
  have d: "distinct (map ts_id two_days)" by code_simp
  from sw d have "\<forall>sl \<in> set two_days. ts_id sl = 2017 \<longrightarrow> in_window sl"
    unfolding slot_in_window_def by blast
  with r re a w2 sw d show ?thesis by blast
qed


section \<open>The fixed hour of a language course\<close>






end
